theory Spec2Isabelle
  imports Complex_Main
begin

section \<open>Values of the host language\<close>

subsection \<open>Strings\<close>

text \<open>
  A string of the program is a sequence of UTF-16 code units; a code unit is a natural
  number. \<open>js\<close> turns a literal of Basic Latin characters into that sequence; code units
  above 127 are written as numbers (\<open>233\<close> is U+00E9).
\<close>

type_synonym jsstring = "nat list"

definition js :: "string \<Rightarrow> jsstring" where
  "js s = map of_char s"

text \<open>
  \<open>String.prototype.trim\<close> removes the WhiteSpace and LineTerminator code points from both
  ends: U+0009..U+000D, U+0020, U+00A0, U+1680, U+2000..U+200A, U+2028, U+2029, U+202F,
  U+205F, U+3000 and U+FEFF.
\<close>

definition isWhiteSpace :: "nat \<Rightarrow> bool" where
  "isWhiteSpace c \<longleftrightarrow>
     c \<in> set [9, 10, 11, 12, 13, 32, 160, 5760, 8232, 8233, 8239, 8287, 12288, 65279]
     \<or> (8192 \<le> c \<and> c \<le> 8202)"

definition trimStart :: "jsstring \<Rightarrow> jsstring" where
  "trimStart s = dropWhile isWhiteSpace s"

definition trimEnd :: "jsstring \<Rightarrow> jsstring" where
  "trimEnd s = rev (dropWhile isWhiteSpace (rev s))"

definition trim :: "jsstring \<Rightarrow> jsstring" where
  "trim s = trimEnd (trimStart s)"

text \<open>
  \<open>String.prototype.toLowerCase\<close>, code unit by code unit. The mapping is the Unicode one on
  Basic Latin and Latin-1, together with the five letters outside these blocks whose
  lower-case form lies inside them (U+0130, U+0178, U+1E9E, U+212A, U+212B). Every other
  cased letter is kept as it is: its lower-case form has the same number of code units and
  none of them below 256, so a search for a Latin-1 keyword in the result finds the same
  occurrences.
\<close>

definition lowerUnit :: "nat \<Rightarrow> jsstring" where
  "lowerUnit c =
     (if 65 \<le> c \<and> c \<le> 90 then [c + 32]
      else if 192 \<le> c \<and> c \<le> 222 \<and> c \<noteq> 215 then [c + 32]
      else if c = 304 then [105, 775]
      else if c = 376 then [255]
      else if c = 7838 then [223]
      else if c = 8490 then [107]
      else if c = 8491 then [229]
      else [c])"

definition toLowerCase :: "jsstring \<Rightarrow> jsstring" where
  "toLowerCase s = concat (map lowerUnit s)"

text \<open>\<open>s.includes(w)\<close>: \<open>w\<close> occurs in \<open>s\<close> as a contiguous block.\<close>

fun startsWith :: "jsstring \<Rightarrow> jsstring \<Rightarrow> bool" where
  "startsWith s [] = True"
| "startsWith [] (w # ws) = False"
| "startsWith (c # cs) (w # ws) = (c = w \<and> startsWith cs ws)"

fun includes_str :: "jsstring \<Rightarrow> jsstring \<Rightarrow> bool" where
  "includes_str [] w = (w = [])"
| "includes_str (c # cs) w = (startsWith (c # cs) w \<or> includes_str cs w)"

subsection \<open>Numbers\<close>

text \<open>
  A number of the program is NaN, an infinity or a finite value. Finite values are modelled
  by exact reals: the rounding of binary64 arithmetic is not part of the model. Comparisons
  with NaN are false.
\<close>

datatype number = NaN | PosInfinity | NegInfinity | Num real

fun isNaN :: "number \<Rightarrow> bool" where
  "isNaN NaN = True"
| "isNaN _ = False"

fun number_le :: "number \<Rightarrow> number \<Rightarrow> bool" where
  "number_le NaN _ = False"
| "number_le _ NaN = False"
| "number_le NegInfinity _ = True"
| "number_le _ PosInfinity = True"
| "number_le (Num a) (Num b) = (a \<le> b)"
| "number_le _ _ = False"

text \<open>\<open>Math.round\<close>: the nearest integer, a tie going up.\<close>

definition round_half_up :: "real \<Rightarrow> int" where
  "round_half_up x = \<lfloor>x + 1 / 2\<rfloor>"

fun Math_round :: "number \<Rightarrow> number" where
  "Math_round (Num x) = Num (of_int (round_half_up x))"
| "Math_round n = n"

subsection \<open>Objects\<close>

text \<open>
  A \<open>Record<string, string>\<close> is the list of its own properties in the order of their
  creation, the names distinct. Writing a property replaces the value of an existing one in
  place and appends a new one; on an object that has no own property \<open>__proto__\<close>, writing
  a string to that name reaches the setter of the prototype, which ignores it.
\<close>

type_synonym object = "(jsstring \<times> jsstring) list"

definition hasKey :: "object \<Rightarrow> jsstring \<Rightarrow> bool" where
  "hasKey obj k \<longleftrightarrow> k \<in> set (map fst obj)"

fun replaceProperty :: "object \<Rightarrow> jsstring \<Rightarrow> jsstring \<Rightarrow> object" where
  "replaceProperty [] k v = []"
| "replaceProperty ((k', v') # ps) k v =
     (if k' = k then (k, v) # ps else (k', v') # replaceProperty ps k v)"

definition setProperty :: "object \<Rightarrow> jsstring \<Rightarrow> jsstring \<Rightarrow> object" where
  "setProperty obj k v =
     (if hasKey obj k then replaceProperty obj k v
      else if k = js ''__proto__'' then obj
      else obj @ [(k, v)])"

text \<open>
  \<open>Object.entries\<close>, \<open>Object.keys\<close> and \<open>Object.values\<close> list the array-index names first
  (canonical decimal numerals below \<open>2^32 - 1\<close>), in ascending numeric order, and then
  the other names in the order of creation.
\<close>

definition isDigit :: "nat \<Rightarrow> bool" where
  "isDigit c \<longleftrightarrow> 48 \<le> c \<and> c \<le> 57"

definition digitsValue :: "jsstring \<Rightarrow> nat" where
  "digitsValue ds = foldl (\<lambda>a c. 10 * a + (c - 48)) 0 ds"

definition isArrayIndex :: "jsstring \<Rightarrow> bool" where
  "isArrayIndex k \<longleftrightarrow>
     k \<noteq> [] \<and> list_all isDigit k \<and> (if hd k = 48 then k = [48] else True)
     \<and> digitsValue k < 4294967295"

definition Object_entries :: "object \<Rightarrow> (jsstring \<times> jsstring) list" where
  "Object_entries obj =
     sort_key (\<lambda>p. digitsValue (fst p)) (filter (\<lambda>p. isArrayIndex (fst p)) obj)
     @ filter (\<lambda>p. \<not> isArrayIndex (fst p)) obj"

definition Object_keys :: "object \<Rightarrow> jsstring list" where
  "Object_keys obj = map fst (Object_entries obj)"

definition Object_values :: "object \<Rightarrow> jsstring list" where
  "Object_values obj = map snd (Object_entries obj)"

text \<open>The decimal numeral of a natural number, as a template literal prints it.\<close>

fun showNat :: "nat \<Rightarrow> jsstring" where
  "showNat n = (if n < 10 then [48 + n] else showNat (n div 10) @ [48 + n mod 10])"

declare showNat.simps [simp del]

section \<open>sheetUtils: from text to records\<close>

subsection \<open>detectSeparator\<close>

text \<open>\<open>text.split(/\r?\n/)\<close>: a line ends at U+000A, which takes a U+000D before it along.\<close>

fun splitLines :: "jsstring \<Rightarrow> jsstring list" where
  "splitLines [] = [[]]"
| "splitLines (c # cs) =
     (if c = 10 then [] # splitLines cs
      else if c = 13 \<and> startsWith cs [10] then [] # splitLines (tl cs)
      else (case splitLines cs of [] \<Rightarrow> [[c]] | l # ls \<Rightarrow> (c # l) # ls))"

text \<open>\<open>(line.match(/,/g) || []).length\<close>: the number of occurrences of a code unit.\<close>

definition countUnit :: "nat \<Rightarrow> jsstring \<Rightarrow> nat" where
  "countUnit c s = length (filter (\<lambda>x. x = c) s)"

text \<open>One round of the loop over the entries of \<open>counts\<close>.\<close>

fun moreFrequent :: "nat \<times> jsstring \<Rightarrow> jsstring \<times> nat \<Rightarrow> nat \<times> jsstring" where
  "moreFrequent (maxCount, detectedSeparator) (sep, count) =
     (if count > maxCount then (count, sep) else (maxCount, detectedSeparator))"

definition detectSeparator :: "jsstring \<Rightarrow> jsstring" where
  "detectSeparator csvText =
     (if trim csvText = [] then js '',''
      else
        case find (\<lambda>line. trim line \<noteq> []) (splitLines csvText) of
          None \<Rightarrow> js '',''
        | Some firstLine \<Rightarrow>
            let counts = [(js '','', countUnit 44 firstLine),
                          (js '';'', countUnit 59 firstLine),
                          ([9], countUnit 9 firstLine)]
            in snd (foldl moreFrequent (0, js '','') counts))"

subsection \<open>parseCSV\<close>

text \<open>
  The scan of one line: \<open>cs\<close> is what is left of the line, the other arguments are the
  variables of the loop. Code unit 34 is the double quote.
\<close>

fun scanLine :: "jsstring \<Rightarrow> jsstring \<Rightarrow> jsstring list \<Rightarrow> jsstring \<Rightarrow> bool \<Rightarrow> jsstring list" where
  "scanLine separator [] values currentValue inQuotes = values @ [currentValue]"
| "scanLine separator [c] values currentValue inQuotes =
     (if c = 34 then scanLine separator [] values currentValue (\<not> inQuotes)
      else if [c] = separator \<and> \<not> inQuotes then scanLine separator [] (values @ [currentValue]) [] inQuotes
      else scanLine separator [] values (currentValue @ [c]) inQuotes)"
| "scanLine separator (c # d # ds) values currentValue inQuotes =
     (if c = 34 then
        (if d = 34 then scanLine separator ds values (currentValue @ [34]) inQuotes
         else scanLine separator (d # ds) values currentValue (\<not> inQuotes))
      else if [c] = separator \<and> \<not> inQuotes then
        scanLine separator (d # ds) (values @ [currentValue]) [] inQuotes
      else scanLine separator (d # ds) values (currentValue @ [c]) inQuotes)"

text \<open>
  \<open>value.replace(/^"(.*)"$/, '$1')\<close>: the pattern matches a value of two code units or
  more that begins and ends with a quote and has no line terminator in between, the dot
  matching none of U+000A, U+000D, U+2028, U+2029; what is left is the part in between.
\<close>

definition isLineTerminator :: "nat \<Rightarrow> bool" where
  "isLineTerminator c \<longleftrightarrow> c \<in> set [10, 13, 8232, 8233]"

definition stripEnclosingQuotes :: "jsstring \<Rightarrow> jsstring" where
  "stripEnclosingQuotes v =
     (if 2 \<le> length v \<and> hd v = 34 \<and> last v = 34
         \<and> \<not> list_ex isLineTerminator (butlast (tl v))
      then butlast (tl v) else v)"

text \<open>\<open>cleaned.replace(/""/g, '"')\<close>: from the left, each pair of quotes becomes one.\<close>

fun collapseQuotes :: "jsstring \<Rightarrow> jsstring" where
  "collapseQuotes (c # d # ds) =
     (if c = 34 \<and> d = 34 then 34 # collapseQuotes ds else c # collapseQuotes (d # ds))"
| "collapseQuotes s = s"

definition cleanValue :: "jsstring \<Rightarrow> jsstring" where
  "cleanValue v = trim (collapseQuotes (stripEnclosingQuotes v))"

definition parseLine :: "jsstring \<Rightarrow> jsstring \<Rightarrow> jsstring list" where
  "parseLine separator line =
     (if trim line = [] then []
      else map cleanValue (scanLine separator line [] [] False))"

definition parseCSV :: "jsstring \<Rightarrow> jsstring list list" where
  "parseCSV csvText =
     (if trim csvText = [] then []
      else
        let separator = detectSeparator csvText;
            lines = splitLines csvText;
            result = map (parseLine separator) lines
        in filter (\<lambda>line. length line > 0) result)"

subsection \<open>csvToObjects\<close>

definition normalizeHeader :: "nat \<times> jsstring \<Rightarrow> jsstring" where
  "normalizeHeader p =
     (case p of (index, header) \<Rightarrow>
        if trim header = [] then js ''coluna_'' @ showNat (index + 1) else trim header)"

text \<open>The body of \<open>normalizedHeaders.forEach\<close>: one property of the record of \<open>row\<close>.\<close>

definition putCell :: "jsstring list \<Rightarrow> object \<Rightarrow> nat \<times> jsstring \<Rightarrow> object" where
  "putCell row obj p =
     (case p of (index, header) \<Rightarrow>
        setProperty obj header (if index < length row then row ! index else []))"

definition rowToObject :: "jsstring list \<Rightarrow> nat \<times> jsstring list \<Rightarrow> object" where
  "rowToObject normalizedHeaders p =
     (case p of (rowIndex, row) \<Rightarrow>
        setProperty (foldl (putCell row) [] (enumerate 0 normalizedHeaders))
          (js ''_rowId'') (js ''row_'' @ showNat (rowIndex + 1)))"

definition csvToObjects :: "jsstring list list \<Rightarrow> object list" where
  "csvToObjects csvData =
     (if length csvData < 1 then []
      else if length csvData = 1 then []
      else
        let headers = hd csvData in
        if length headers = 0 \<or> list_all (\<lambda>h. trim h = []) headers then []
        else
          let normalizedHeaders = map normalizeHeader (enumerate 0 headers);
              rows = tl csvData
          in map (rowToObject normalizedHeaders) (enumerate 0 rows))"

subsection \<open>cleanSheetData\<close>

definition hasContent :: "object \<Rightarrow> bool" where
  "hasContent row \<longleftrightarrow> list_ex (\<lambda>value. trim value \<noteq> []) (Object_values row)"

definition cleanRow :: "object \<Rightarrow> object" where
  "cleanRow row =
     foldl (\<lambda>cleanRow p. setProperty cleanRow (fst p) (trim (snd p))) [] (Object_entries row)"

definition cleanSheetData :: "object list \<Rightarrow> object list" where
  "cleanSheetData data =
     (if length data = 0 then [] else map cleanRow (filter hasContent data))"

section \<open>npsUtils: categories\<close>

datatype NPSCategory = DETRATOR | NEUTRO | PROMOTOR

definition getNPSCategory :: "number \<Rightarrow> NPSCategory" where
  "getNPSCategory score =
     (if isNaN score then NEUTRO
      else
        let roundedScore = Math_round score in
        if number_le (Num 0) roundedScore \<and> number_le roundedScore (Num 6) then DETRATOR
        else if number_le (Num 7) roundedScore \<and> number_le roundedScore (Num 8) then NEUTRO
        else if number_le (Num 9) roundedScore \<and> number_le roundedScore (Num 10) then PROMOTOR
        else NEUTRO)"

section \<open>npsUtils: parsing a cell\<close>

subsection \<open>parseFloat\<close>

text \<open>
  \<open>parseFloat\<close> skips leading white space and reads the longest prefix that is a
  \<open>StrDecimalLiteral\<close>: an optional sign, then \<open>Infinity\<close>, or digits with an optional
  fraction, or a dot with digits; then an optional exponent, which counts only when it
  has a digit. Without such a prefix the result is NaN. Code units: 43 \<open>+\<close>, 45 \<open>-\<close>,
  46 the dot, 69 \<open>E\<close>, 101 \<open>e\<close>.

  The result here is the exact real the literal denotes, where the program has the nearest
  binary64: a literal that differs from 0 or 10 by less than the rounding, such as
  \<open>10.0000000000000001\<close>, is in range for the program and out of range here. The
  properties below that hold for every cell use only that a valid value lies between 0
  and 10; the cells that are evaluated denote binary64 numbers exactly.
\<close>

definition fractionValue :: "jsstring \<Rightarrow> real" where
  "fractionValue ds = of_nat (digitsValue ds) / 10 ^ length ds"

definition exponentFactor :: "jsstring \<Rightarrow> real" where
  "exponentFactor r =
     (case r of
        [] \<Rightarrow> 1
      | e # r1 \<Rightarrow>
          if e = 101 \<or> e = 69 then
            (case r1 of
               [] \<Rightarrow> 1
             | sign # r2 \<Rightarrow>
                 if sign = 43 then
                   (if takeWhile isDigit r2 = [] then 1
                    else 10 ^ digitsValue (takeWhile isDigit r2))
                 else if sign = 45 then
                   (if takeWhile isDigit r2 = [] then 1
                    else 1 / 10 ^ digitsValue (takeWhile isDigit r2))
                 else
                   (if takeWhile isDigit r1 = [] then 1
                    else 10 ^ digitsValue (takeWhile isDigit r1)))
          else 1)"

definition strUnsignedDecimalLiteral :: "jsstring \<Rightarrow> number" where
  "strUnsignedDecimalLiteral s =
     (if startsWith s (js ''Infinity'') then PosInfinity
      else
        let intDigits = takeWhile isDigit s;
            r1 = dropWhile isDigit s
        in
          if intDigits \<noteq> [] then
            (if startsWith r1 [46] then
               Num ((of_nat (digitsValue intDigits) + fractionValue (takeWhile isDigit (tl r1)))
                    * exponentFactor (dropWhile isDigit (tl r1)))
             else Num (of_nat (digitsValue intDigits) * exponentFactor r1))
          else if startsWith r1 [46] \<and> takeWhile isDigit (tl r1) \<noteq> [] then
            Num (fractionValue (takeWhile isDigit (tl r1))
                 * exponentFactor (dropWhile isDigit (tl r1)))
          else NaN)"

fun negate :: "number \<Rightarrow> number" where
  "negate NaN = NaN"
| "negate PosInfinity = NegInfinity"
| "negate NegInfinity = PosInfinity"
| "negate (Num x) = Num (- x)"

definition parseFloat :: "jsstring \<Rightarrow> number" where
  "parseFloat s =
     (case trimStart s of
        [] \<Rightarrow> NaN
      | c # r \<Rightarrow>
          if c = 43 then strUnsignedDecimalLiteral r
          else if c = 45 then negate (strUnsignedDecimalLiteral r)
          else strUnsignedDecimalLiteral (c # r))"

subsection \<open>parseNPSValue\<close>

text \<open>The values \<open>parseNPSValue\<close> tells apart in its argument of type \<open>any\<close>.\<close>

datatype jsvalue = Undefined | Null | NumberValue number | StringValue jsstring

text \<open>
  The result \<open>{ valid, value }\<close>. A value that passes the range test is finite, so the
  field holds a real, and \<open>None\<close> is \<open>null\<close>.
\<close>

record parsed =
  valid :: bool
  pvalue :: "real option"

fun finitePart :: "number \<Rightarrow> real option" where
  "finitePart (Num x) = Some x"
| "finitePart n = None"

definition inRange :: "number \<Rightarrow> parsed" where
  "inRange numValue =
     (let isValid = (\<not> isNaN numValue \<and> number_le (Num 0) numValue \<and> number_le numValue (Num 10))
      in \<lparr>valid = isValid, pvalue = (if isValid then finitePart numValue else None)\<rparr>)"

text \<open>
  The entries of \<open>wordToValue\<close> in the order \<open>Object.entries\<close> lists them: the order in
  which the literal writes them, no name being an array index.
\<close>

definition wordToValue :: "(jsstring \<times> real) list" where
  "wordToValue =
     [(js ''p'' @ [233] @ js ''ssimo'', 0), (js ''pessimo'', 0), (js ''ruim'', 2),
      (js ''insatisfeito'', 3), (js ''regular'', 5), (js ''m'' @ [233] @ js ''dio'', 5),
      (js ''medio'', 5), (js ''neutro'', 7), (js ''bom'', 8), (js ''satisfeito'', 8),
      ([243] @ js ''timo'', 9), (js ''otimo'', 9), (js ''excelente'', 10),
      (js ''muito bom'', 9), (js ''perfeito'', 10)]"

text \<open>The loop over the entries: the first word that occurs decides, none leaves NaN.\<close>

fun firstKeyword :: "jsstring \<Rightarrow> (jsstring \<times> real) list \<Rightarrow> number" where
  "firstKeyword lowerValue [] = NaN"
| "firstKeyword lowerValue ((word, val) # entries) =
     (if includes_str lowerValue word then Num val else firstKeyword lowerValue entries)"

definition parseNPSValue :: "jsvalue \<Rightarrow> parsed" where
  "parseNPSValue v =
     (case v of
        Undefined \<Rightarrow> \<lparr>valid = False, pvalue = None\<rparr>
      | Null \<Rightarrow> \<lparr>valid = False, pvalue = None\<rparr>
      | NumberValue n \<Rightarrow> inRange n
      | StringValue s \<Rightarrow>
          if s = [] then \<lparr>valid = False, pvalue = None\<rparr>
          else
            let strValue = trim s;
                numValue = parseFloat strValue
            in
              if isNaN numValue then
                (if takeWhile isDigit strValue \<noteq> [] then
                   inRange (Num (of_nat (digitsValue (takeWhile isDigit strValue))))
                 else inRange (firstKeyword (toLowerCase strValue) wordToValue))
              else inRange numValue)"

section \<open>npsUtils: finding the score columns\<close>

text \<open>
  \<open>row.hasOwnProperty(k)\<close> looks the method up on the record itself first: a record with
  an own property of that name holds a string there, and calling it raises a TypeError.
  Otherwise the test says whether \<open>k\<close> is an own property, and the read \<open>row[k]\<close> the
  code makes when it is gives the value: \<open>Inr None\<close> is a test that fails, \<open>Inr (Some v)\<close>
  one that holds, with the value read.
\<close>

datatype error = TypeError

definition ownProperty :: "object \<Rightarrow> jsstring \<Rightarrow> error + jsstring option" where
  "ownProperty row k =
     (if hasKey row (js ''hasOwnProperty'') then Inl TypeError else Inr (map_of row k))"

subsection \<open>analyzeColumnValues\<close>

record columnStats =
  validCount :: nat
  validPercentage :: real
  averageValue :: real
  hasExpectedRange :: bool

text \<open>
  The first loop; the triple holds \<open>validCount\<close>, \<open>sum\<close> and \<open>values\<close>, written \<open>n\<close>,
  \<open>s\<close> and \<open>values\<close>.
\<close>

fun scanColumn ::
  "object list \<Rightarrow> jsstring \<Rightarrow> nat \<times> real \<times> real list \<Rightarrow> error + (nat \<times> real \<times> real list)" where
  "scanColumn [] column acc = Inr acc"
| "scanColumn (row # rows) column (n, s, values) =
     (case ownProperty row column of
        Inl e \<Rightarrow> Inl e
      | Inr None \<Rightarrow> scanColumn rows column (n, s, values)
      | Inr (Some cell) \<Rightarrow>
          (case pvalue (parseNPSValue (StringValue cell)) of
             Some v \<Rightarrow>
               if valid (parseNPSValue (StringValue cell))
               then scanColumn rows column (n + 1, s + v, values @ [v])
               else scanColumn rows column (n, s, values)
           | None \<Rightarrow> scanColumn rows column (n, s, values)))"

text \<open>The second loop and the test that follows it.\<close>

definition rangeOf :: "real list \<Rightarrow> bool" where
  "rangeOf values =
     (let hasLowValues = list_ex (\<lambda>value. value \<ge> 0 \<and> value \<le> 3) values;
          hasMidValues = list_ex (\<lambda>value. value \<ge> 4 \<and> value \<le> 7) values;
          hasHighValues = list_ex (\<lambda>value. value \<ge> 8 \<and> value \<le> 10) values
      in (hasLowValues \<and> hasMidValues) \<or> (hasMidValues \<and> hasHighValues)
         \<or> (hasLowValues \<and> hasHighValues)
         \<or> (length values > 0 \<and> (hasLowValues \<or> hasMidValues \<or> hasHighValues)))"

definition analyzeColumnValues :: "object list \<Rightarrow> jsstring \<Rightarrow> error + columnStats" where
  "analyzeColumnValues data column =
     (case scanColumn data column (0, 0, []) of
        Inl e \<Rightarrow> Inl e
      | Inr (n, s, values) \<Rightarrow>
          Inr \<lparr>validCount = n,
               validPercentage =
                 (if length data > 0 then (of_nat n / of_nat (length data)) * 100 else 0),
               averageValue = (if n > 0 then s / of_nat n else 0),
               hasExpectedRange = rangeOf values\<rparr>)"

subsection \<open>identifyNPSColumns\<close>

definition possibleColumnNames :: "jsstring list" where
  "possibleColumnNames =
     [js ''nps'', js ''nota'', js ''score'', js ''avalia'' @ [231, 227] @ js ''o'',
      js ''avaliacao'', js ''nota nps'', js ''pontua'' @ [231, 227] @ js ''o'',
      js ''pontuacao'', js ''recomenda'' @ [231, 227] @ js ''o'', js ''recomendacao'',
      js ''indica'' @ [231, 227] @ js ''o'', js ''indicacao'',
      js ''satisfa'' @ [231, 227] @ js ''o'', js ''satisfacao'',
      js ''classifica'' @ [231, 227] @ js ''o'', js ''classificacao'', js ''rating'',
      js ''rate'', js ''nota de 0 a 10'', js ''avalia'' @ [231, 227] @ js ''o de 0 a 10'',
      js ''qual nota voc'' @ [234] @ js '' daria'', js ''qual nota voce daria'',
      js ''de 0 a 10'', js ''escala de 0 a 10'']"

record identification =
  columns :: "jsstring list"
  analyzedColumns :: "jsstring list"

definition qualifies :: "jsstring \<Rightarrow> columnStats \<Rightarrow> bool" where
  "qualifies column stats =
     (let columnLower = toLowerCase column;
          isNameSuggestive = list_ex (\<lambda>name. includes_str columnLower name) possibleColumnNames
      in
        if isNameSuggestive \<and> validPercentage stats \<ge> 30 \<and> hasExpectedRange stats then True
        else if \<not> isNameSuggestive \<and> validPercentage stats \<ge> 50 \<and> hasExpectedRange stats then True
        else if isNameSuggestive \<and> validPercentage stats \<ge> 10 \<and> hasExpectedRange stats then True
        else False)"

text \<open>The loop over the headers; the pair is \<open>identifiedColumns\<close> and \<open>analyzedColumns\<close>.\<close>

fun identifyLoop ::
  "object list \<Rightarrow> jsstring list \<Rightarrow> jsstring list \<times> jsstring list
     \<Rightarrow> error + (jsstring list \<times> jsstring list)" where
  "identifyLoop data [] acc = Inr acc"
| "identifyLoop data (column # headers) (identifiedColumns, analyzed) =
     (if column = js ''_rowId'' then identifyLoop data headers (identifiedColumns, analyzed)
      else
        case analyzeColumnValues data column of
          Inl e \<Rightarrow> Inl e
        | Inr stats \<Rightarrow>
            if qualifies column stats
            then identifyLoop data headers (identifiedColumns @ [column], analyzed @ [column])
            else identifyLoop data headers (identifiedColumns, analyzed @ [column]))"

text \<open>\<open>Array.from(new Set(xs))\<close>: each element once, at its first place.\<close>

definition uniqueFirst :: "jsstring list \<Rightarrow> jsstring list" where
  "uniqueFirst xs = foldl (\<lambda>seen x. if x \<in> set seen then seen else seen @ [x]) [] xs"

definition identifyNPSColumns :: "object list \<Rightarrow> error + identification" where
  "identifyNPSColumns data =
     (if length data = 0 then Inr \<lparr>columns = [], analyzedColumns = []\<rparr>
      else
        case identifyLoop data (Object_keys (hd data)) ([], []) of
          Inl e \<Rightarrow> Inl e
        | Inr (identifiedColumns, analyzed) \<Rightarrow>
            Inr \<lparr>columns = uniqueFirst identifiedColumns, analyzedColumns = analyzed\<rparr>)"

section \<open>npsUtils: calculateNPS\<close>

record debugInfo =
  colunasAnalisadas :: "jsstring list"
  valoresIgnorados :: "jsstring list"

record NPSData =
  score :: int
  detratores :: nat
  neutros :: nat
  promotores :: nat
  totalRespostas :: nat
  percentualDetratores :: real
  percentualNeutros :: real
  percentualPromotores :: real
  respostasPorNota :: "int \<rightharpoonup> nat"
  categoriaPorNota :: "int \<rightharpoonup> NPSCategory"
  colunasIdentificadas :: "jsstring list"
  respostasInvalidas :: nat
  debug :: debugInfo

definition emptyNPSData :: "jsstring list \<Rightarrow> jsstring list \<Rightarrow> jsstring list \<Rightarrow> NPSData" where
  "emptyNPSData colsIdentified colsAnalyzed valsIgnored =
     \<lparr>score = 0, detratores = 0, neutros = 0, promotores = 0, totalRespostas = 0,
      percentualDetratores = 0, percentualNeutros = 0, percentualPromotores = 0,
      respostasPorNota = Map.empty, categoriaPorNota = Map.empty,
      colunasIdentificadas = colsIdentified,
      respostasInvalidas = length valsIgnored,
      debug = \<lparr>colunasAnalisadas = colsAnalyzed, valoresIgnorados = valsIgnored\<rparr>\<rparr>"

text \<open>
  The variables the two nested loops update; each carries the name it has in the source,
  with a prime.
\<close>

record tally =
  detratores' :: nat
  neutros' :: nat
  promotores' :: nat
  totalRespostas' :: nat
  respostasInvalidasCount' :: nat
  respostasPorNota' :: "int \<rightharpoonup> nat"
  valoresIgnorados' :: "jsstring list"

text \<open>The loop \<open>for (let i = 0; i <= 10; i++)\<close> that fills the two tables.\<close>

definition initialNotas :: "int \<rightharpoonup> nat" where
  "initialNotas = foldl (\<lambda>m i. m(int i \<mapsto> 0)) Map.empty [0..<11]"

definition initialCategorias :: "int \<rightharpoonup> NPSCategory" where
  "initialCategorias =
     foldl (\<lambda>m i. m(int i \<mapsto> getNPSCategory (Num (of_nat i)))) Map.empty [0..<11]"

definition initialTally :: tally where
  "initialTally =
     \<lparr>detratores' = 0, neutros' = 0, promotores' = 0, totalRespostas' = 0,
      respostasInvalidasCount' = 0, respostasPorNota' = initialNotas,
      valoresIgnorados' = []\<rparr>"

text \<open>
  A valid score \<open>v\<close>: the total, the bucket of the rounded score, the counter of its
  category.
\<close>

definition countValid :: "real \<Rightarrow> tally \<Rightarrow> tally" where
  "countValid v t =
     (let t1 = t\<lparr>totalRespostas' := totalRespostas' t + 1\<rparr>;
          t2 = t1\<lparr>respostasPorNota' :=
                 (respostasPorNota' t1)(round_half_up v \<mapsto>
                    (case respostasPorNota' t1 (round_half_up v) of
                       None \<Rightarrow> 0 | Some n \<Rightarrow> n) + 1)\<rparr>;
          category = getNPSCategory (Num v)
      in
        if category = DETRATOR then t2\<lparr>detratores' := detratores' t2 + 1\<rparr>
        else if category = NEUTRO then t2\<lparr>neutros' := neutros' t2 + 1\<rparr>
        else if category = PROMOTOR then t2\<lparr>promotores' := promotores' t2 + 1\<rparr>
        else t2)"

text \<open>A cell that does not parse and is not blank.\<close>

definition countInvalid :: "jsstring \<Rightarrow> tally \<Rightarrow> tally" where
  "countInvalid scoreValue t =
     (let t1 = t\<lparr>respostasInvalidasCount' := respostasInvalidasCount' t + 1\<rparr>
      in
        if scoreValue \<in> set (valoresIgnorados' t1) then t1
        else t1\<lparr>valoresIgnorados' := valoresIgnorados' t1 @ [scoreValue]\<rparr>)"

definition countCell :: "object \<Rightarrow> jsstring \<Rightarrow> tally \<Rightarrow> error + tally" where
  "countCell row scoreColumn t =
     (case ownProperty row scoreColumn of
        Inl e \<Rightarrow> Inl e
      | Inr None \<Rightarrow> Inr t
      | Inr (Some scoreValue) \<Rightarrow>
          (case pvalue (parseNPSValue (StringValue scoreValue)) of
             Some v \<Rightarrow>
               if valid (parseNPSValue (StringValue scoreValue)) then Inr (countValid v t)
               else if trim scoreValue \<noteq> [] then Inr (countInvalid scoreValue t)
               else Inr t
           | None \<Rightarrow>
               if trim scoreValue \<noteq> [] then Inr (countInvalid scoreValue t) else Inr t))"

fun countRow :: "object \<Rightarrow> jsstring list \<Rightarrow> tally \<Rightarrow> error + tally" where
  "countRow row [] t = Inr t"
| "countRow row (scoreColumn # cs) t =
     (case countCell row scoreColumn t of
        Inl e \<Rightarrow> Inl e
      | Inr t' \<Rightarrow> countRow row cs t')"

fun countRows :: "object list \<Rightarrow> jsstring list \<Rightarrow> tally \<Rightarrow> error + tally" where
  "countRows [] identifiedScoreColumns t = Inr t"
| "countRows (row # rows) identifiedScoreColumns t =
     (case countRow row identifiedScoreColumns t of
        Inl e \<Rightarrow> Inl e
      | Inr t' \<Rightarrow> countRows rows identifiedScoreColumns t')"

text \<open>
  What follows the loops: the empty summary without a valid answer, the figures otherwise.
  The percentages and their difference are exact reals, so \<open>score\<close> is the rounding of
  the exact difference, where the program rounds the binary64 one; nothing below is stated
  about \<open>score\<close>.
\<close>

definition summary :: "jsstring list \<Rightarrow> jsstring list \<Rightarrow> tally \<Rightarrow> NPSData" where
  "summary identifiedScoreColumns analyzed t =
     (if totalRespostas' t = 0
      then emptyNPSData identifiedScoreColumns analyzed (valoresIgnorados' t)
      else
        let percentualDetratores = (of_nat (detratores' t) / of_nat (totalRespostas' t)) * 100;
            percentualNeutros = (of_nat (neutros' t) / of_nat (totalRespostas' t)) * 100;
            percentualPromotores = (of_nat (promotores' t) / of_nat (totalRespostas' t)) * 100;
            npsScore = percentualPromotores - percentualDetratores
        in
          \<lparr>score = round_half_up npsScore,
           detratores = detratores' t, neutros = neutros' t, promotores = promotores' t,
           totalRespostas = totalRespostas' t,
           percentualDetratores = percentualDetratores,
           percentualNeutros = percentualNeutros,
           percentualPromotores = percentualPromotores,
           respostasPorNota = respostasPorNota' t,
           categoriaPorNota = initialCategorias,
           colunasIdentificadas = identifiedScoreColumns,
           respostasInvalidas = respostasInvalidasCount' t,
           debug = \<lparr>colunasAnalisadas = analyzed, valoresIgnorados = valoresIgnorados' t\<rparr>\<rparr>)"

definition tallyColumns :: "object list \<Rightarrow> jsstring list \<Rightarrow> jsstring list \<Rightarrow> error + NPSData" where
  "tallyColumns data identifiedScoreColumns analyzed =
     (case countRows data identifiedScoreColumns initialTally of
        Inl e \<Rightarrow> Inl e
      | Inr t \<Rightarrow> Inr (summary identifiedScoreColumns analyzed t))"

definition given :: "jsstring list option \<Rightarrow> bool" where
  "given npsScoreColumns \<longleftrightarrow>
     (case npsScoreColumns of None \<Rightarrow> False | Some cs \<Rightarrow> length cs > 0)"

definition calculateNPS :: "object list \<Rightarrow> jsstring list option \<Rightarrow> error + NPSData" where
  "calculateNPS data npsScoreColumns =
     (if length data = 0 then Inr (emptyNPSData [] [] [])
      else if given npsScoreColumns then
        tallyColumns data (the npsScoreColumns) (Object_keys (hd data))
      else
        case identifyNPSColumns data of
          Inl e \<Rightarrow> Inl e
        | Inr result \<Rightarrow>
            if length (columns result) = 0
            then Inr (emptyNPSData [] (analyzedColumns result) [])
            else tallyColumns data (columns result) (analyzedColumns result))"

section \<open>Notions the properties are stated with\<close>

text \<open>
  What the loops of \<open>calculateNPS\<close> keep true: each valid answer is in exactly one of the
  three counters, and the histogram has the grades 0 to 10 and no other.
\<close>

definition balanced :: "tally \<Rightarrow> bool" where
  "balanced t \<longleftrightarrow>
     detratores' t + neutros' t + promotores' t = totalRespostas' t
     \<and> dom (respostasPorNota' t) = {0..10}"

text \<open>
  The valid parsed values of a column, record by record: the value the cell parses to,
  for each record that has the column.
\<close>

definition cellValue :: "object \<Rightarrow> jsstring \<Rightarrow> real list" where
  "cellValue row column =
     (case map_of row column of
        None \<Rightarrow> []
      | Some cell \<Rightarrow>
          (case pvalue (parseNPSValue (StringValue cell)) of None \<Rightarrow> [] | Some v \<Rightarrow> [v]))"

definition columnValues :: "object list \<Rightarrow> jsstring \<Rightarrow> real list" where
  "columnValues data column = concat (map (\<lambda>row. cellValue row column) data)"

text \<open>
  The cells that count as invalid answers: present, not blank, and not parsing. Their
  number over the records and the considered columns counts a repeated string each time.
\<close>

definition failedCell :: "object \<Rightarrow> jsstring \<Rightarrow> bool" where
  "failedCell row column =
     (case map_of row column of
        None \<Rightarrow> False
      | Some cell \<Rightarrow> trim cell \<noteq> [] \<and> \<not> valid (parseNPSValue (StringValue cell)))"

definition failedCells :: "object list \<Rightarrow> jsstring list \<Rightarrow> nat" where
  "failedCells data cs = length (filter (\<lambda>p. failedCell (fst p) (snd p)) (List.product data cs))"

text \<open>
  A field written the way the format quotes it: each quote of the content doubled, and a
  quote on either side.
\<close>

definition escapeQuotes :: "jsstring \<Rightarrow> jsstring" where
  "escapeQuotes c = concat (map (\<lambda>x. if x = 34 then [34, 34] else [x]) c)"

definition quoteField :: "jsstring \<Rightarrow> jsstring" where
  "quoteField c = [34] @ escapeQuotes c @ [34]"

subsection \<open>Sample inputs\<close>

text \<open>Four records with the answers 9, 9, 3 and 7 in a column \<open>score\<close>.\<close>

definition fourAnswers :: "object list" where
  "fourAnswers =
     [[(js ''score'', js ''9'')], [(js ''score'', js ''9'')], [(js ''score'', js ''3'')],
      [(js ''score'', js ''7'')]]"

text \<open>Two records with the same word, which is no score, in the column \<open>score\<close>.\<close>

definition twoWords :: "object list" where
  "twoWords = [[(js ''score'', js ''abc'')], [(js ''score'', js ''abc'')]]"

text \<open>One record whose answer lies between two grades.\<close>

definition halfwayAnswer :: "object list" where
  "halfwayAnswer = [[(js ''score'', js ''3.5'')]]"

text \<open>One record of a sheet that has a column named \<open>hasOwnProperty\<close>, and that sheet as text.\<close>

definition shadowedMethod :: "object list" where
  "shadowedMethod = [[(js ''hasOwnProperty'', js ''5'')]]"

definition shadowedMethodText :: jsstring where
  "shadowedMethodText = js ''hasOwnProperty\<newline>5''"

text \<open>A sheet of two columns whose second data row has separators only.\<close>

definition separatorRowText :: jsstring where
  "separatorRowText = js ''a,b\<newline>1,2\<newline>,,\<newline>3,4''"

text \<open>A line that is one quoted field, with a separator and an escaped quote inside.\<close>

definition quotedLine :: jsstring where
  \<open>quotedLine = js ''"He said ""hi"", cool"''\<close>

text \<open>
  The content of that field; a content with a quote at either end; a content with a blank
  at either end.
\<close>

definition quotedContent :: jsstring where
  \<open>quotedContent = js ''He said "hi", cool''\<close>

definition enclosedContent :: jsstring where
  \<open>enclosedContent = js ''"a,b"''\<close>

definition paddedContent :: jsstring where
  \<open>paddedContent = js '' "x", y ''\<close>

text \<open>A line with one semicolon, one tab (code unit 9) and no comma.\<close>

definition tiedLine :: jsstring where
  "tiedLine = js ''a;b'' @ [9] @ js ''c''"

section \<open>Properties\<close>

subsection \<open>Evaluation of the samples\<close>

text \<open>
  The rewrite rules that evaluate the functions on strings, cells, objects and lines.
\<close>

lemmas str_defs = js_def trim_def trimStart_def trimEnd_def isWhiteSpace_def

lemmas parse_defs = parseNPSValue_def parseFloat_def strUnsignedDecimalLiteral_def
  exponentFactor_def fractionValue_def digitsValue_def isDigit_def inRange_def Let_def
  wordToValue_def toLowerCase_def lowerUnit_def

lemmas object_defs = ownProperty_def hasKey_def Object_keys_def Object_entries_def
  Object_values_def isArrayIndex_def

lemmas csv_defs = parseCSV_def detectSeparator_def countUnit_def Let_def parseLine_def
  cleanValue_def stripEnclosingQuotes_def isLineTerminator_def

lemma parse_9: "parseNPSValue (StringValue (js ''9'')) = \<lparr>valid = True, pvalue = Some 9\<rparr>"
  by (simp add: parse_defs str_defs)

lemma parse_3: "parseNPSValue (StringValue (js ''3'')) = \<lparr>valid = True, pvalue = Some 3\<rparr>"
  by (simp add: parse_defs str_defs)

lemma parse_7: "parseNPSValue (StringValue (js ''7'')) = \<lparr>valid = True, pvalue = Some 7\<rparr>"
  by (simp add: parse_defs str_defs)

lemma parse_abc: "parseNPSValue (StringValue (js ''abc'')) = \<lparr>valid = False, pvalue = None\<rparr>"
  by (simp add: parse_defs str_defs)

lemma parse_halfway:
  "parseNPSValue (StringValue (js ''3.5'')) = \<lparr>valid = True, pvalue = Some (7 / 2)\<rparr>"
  by (simp add: parse_defs str_defs)

lemma nonblank_abc: "trim (js ''abc'') \<noteq> []"
  by (simp add: str_defs)

lemma keys_score: "Object_keys [(js ''score'', v)] = [js ''score'']"
  by (simp add: object_defs js_def isDigit_def)

lemma own_score: "ownProperty [(js ''score'', v)] (js ''score'') = Inr (Some v)"
  by (simp add: object_defs js_def)

lemma category_9: "getNPSCategory (Num 9) = PROMOTOR"
  by (simp add: getNPSCategory_def round_half_up_def)

lemma category_3: "getNPSCategory (Num 3) = DETRATOR"
  by (simp add: getNPSCategory_def round_half_up_def)

lemma category_7: "getNPSCategory (Num 7) = NEUTRO"
  by (simp add: getNPSCategory_def round_half_up_def)

lemma showNat_digit: "n < 10 \<Longrightarrow> showNat n = [48 + n]"
  by (simp add: showNat.simps)

lemma fourAnswers_summary:
  "map_sum id (\<lambda>r. (totalRespostas r, percentualDetratores r, percentualNeutros r,
                       percentualPromotores r, score r))
     (calculateNPS fourAnswers (Some [js ''score''])) = Inr (4, 25, 25, 50, 25)"
  by (simp add: calculateNPS_def given_def tallyColumns_def summary_def
      fourAnswers_def countCell_def own_score parse_9 parse_3 parse_7
      countValid_def Let_def category_9 category_3 category_7 initialTally_def round_half_up_def)

lemma twoWords_summary:
  "calculateNPS twoWords (Some [js ''score''])
     = Inr (emptyNPSData [js ''score''] [js ''score''] [js ''abc''])"
  by (simp add: calculateNPS_def given_def tallyColumns_def summary_def keys_score
      twoWords_def countCell_def own_score parse_abc countInvalid_def Let_def initialTally_def
      nonblank_abc)

subsection \<open>getNPSCategory\<close>

lemma getNPSCategory_Num:
  "getNPSCategory (Num v) =
     (if 0 \<le> round_half_up v \<and> round_half_up v \<le> 6 then DETRATOR
      else if 9 \<le> round_half_up v \<and> round_half_up v \<le> 10 then PROMOTOR
      else NEUTRO)"
  by (simp add: getNPSCategory_def Let_def)

lemma round_half_up_range:
  assumes "0 \<le> v" and "v \<le> 10"
  shows "0 \<le> round_half_up v" and "round_half_up v \<le> 10"
proof -
  show "0 \<le> round_half_up v"
    using assms(1) by (simp add: round_half_up_def)
  have "v + 1 / 2 < 11" using assms(2) by simp
  then have "\<lfloor>v + 1 / 2\<rfloor> < 11" by (simp add: floor_less_iff)
  then show "round_half_up v \<le> 10" by (simp add: round_half_up_def)
qed

text \<open>
  C1. \<open>getNPSCategory\<close> rounds first (a tie goes up) and then partitions the rounded range:
  a score between 0 and 10 rounds to a grade between 0 and 10, and it is a detractor exactly
  for the grades 0 to 6, a passive for 7 and 8, a promoter for 9 and 10; a score whose
  rounded value lies outside 0..10 is a passive.
\<close>

theorem getNPSCategory_partition:
  "(0 \<le> v \<and> v \<le> 10 \<longrightarrow>
      round_half_up v \<in> {0..10}
      \<and> (getNPSCategory (Num v) = DETRATOR \<longleftrightarrow> round_half_up v \<in> {0..6})
      \<and> (getNPSCategory (Num v) = NEUTRO \<longleftrightarrow> round_half_up v \<in> {7..8})
      \<and> (getNPSCategory (Num v) = PROMOTOR \<longleftrightarrow> round_half_up v \<in> {9..10}))
   \<and> (round_half_up v \<notin> {0..10} \<longrightarrow> getNPSCategory (Num v) = NEUTRO)"
proof (intro conjI impI)
  assume r: "0 \<le> v \<and> v \<le> 10"
  then show "round_half_up v \<in> {0..10}"
    using round_half_up_range [of v] by simp
  then have b: "0 \<le> round_half_up v" "round_half_up v \<le> 10" by simp_all
  show "getNPSCategory (Num v) = DETRATOR \<longleftrightarrow> round_half_up v \<in> {0..6}"
    using b by (simp add: getNPSCategory_Num)
  show "getNPSCategory (Num v) = NEUTRO \<longleftrightarrow> round_half_up v \<in> {7..8}"
    using b by (auto simp add: getNPSCategory_Num)
  show "getNPSCategory (Num v) = PROMOTOR \<longleftrightarrow> round_half_up v \<in> {9..10}"
    using b by (auto simp add: getNPSCategory_Num)
next
  assume "round_half_up v \<notin> {0..10}"
  then show "getNPSCategory (Num v) = NEUTRO"
    by (auto simp add: getNPSCategory_Num)
qed

theorem getNPSCategory_partition_witness:
  "getNPSCategory (Num (13 / 2)) = NEUTRO \<and> round_half_up (13 / 2) = 7
   \<and> getNPSCategory (Num (32 / 5)) = DETRATOR
   \<and> getNPSCategory (Num (17 / 2)) = PROMOTOR
   \<and> round_half_up 11 \<notin> {0..10} \<and> getNPSCategory (Num 11) = NEUTRO"
proof -
  have r1: "round_half_up (13 / 2) = 7" by (simp add: round_half_up_def)
  have r2: "round_half_up (32 / 5) = 6" by (simp add: round_half_up_def)
  have r3: "round_half_up (17 / 2) = 9" by (simp add: round_half_up_def)
  have r4: "round_half_up 11 = 11" by (simp add: round_half_up_def)
  show ?thesis
    using getNPSCategory_partition [of "13 / 2"] getNPSCategory_partition [of "32 / 5"]
      getNPSCategory_partition [of "17 / 2"] getNPSCategory_partition [of 11]
    by (simp add: r1 r2 r3 r4)
qed

subsection \<open>What parseNPSValue returns\<close>

lemma inRange_Some:
  "pvalue (inRange n) = Some v \<Longrightarrow> valid (inRange n) \<and> 0 \<le> v \<and> v \<le> 10"
  by (cases n) (auto simp add: inRange_def Let_def split: if_splits)

lemma parseNPSValue_Some:
  "pvalue (parseNPSValue x) = Some v \<Longrightarrow> valid (parseNPSValue x) \<and> 0 \<le> v \<and> v \<le> 10"
  by (cases x) (auto simp add: parseNPSValue_def Let_def dest: inRange_Some split: if_splits)

lemma inRange_valid: "valid (inRange n) \<Longrightarrow> pvalue (inRange n) \<noteq> None"
  by (cases n) (auto simp add: inRange_def Let_def)

lemma parseNPSValue_valid: "valid (parseNPSValue x) \<Longrightarrow> pvalue (parseNPSValue x) \<noteq> None"
  by (cases x) (auto simp add: parseNPSValue_def Let_def dest: inRange_valid split: if_splits)

subsection \<open>The loops of calculateNPS\<close>

lemma upt_11: "[0..<11] = [0, 1, 2, 3, 4, 5, 6, 7, 8, 9, 10]"
  by (simp add: upt_rec)

lemma grades_enum: "{0..10::int} = {0, 1, 2, 3, 4, 5, 6, 7, 8, 9, 10}"
  by (rule set_eqI) (simp, arith)

lemma dom_initialNotas: "dom initialNotas = {0..10}"
  by (auto simp add: initialNotas_def upt_11 grades_enum)

lemma balanced_initial: "balanced initialTally"
  by (simp add: balanced_def initialTally_def dom_initialNotas)

lemma balanced_countValid:
  assumes "balanced t" and "0 \<le> v" and "v \<le> 10"
  shows "balanced (countValid v t)"
proof -
  have "round_half_up v \<in> {0..10}"
    using round_half_up_range [of v] assms by simp
  then have "insert (round_half_up v) {0..10} = {0..10}"
    by auto
  then show ?thesis
    using assms(1)
    by (cases "getNPSCategory (Num v)") (simp_all add: balanced_def countValid_def Let_def)
qed

lemma balanced_countInvalid: "balanced t \<Longrightarrow> balanced (countInvalid s t)"
  by (simp add: balanced_def countInvalid_def Let_def)

lemma balanced_countCell:
  "countCell row c t = Inr t' \<Longrightarrow> balanced t \<Longrightarrow> balanced t'"
  by (auto simp add: countCell_def balanced_countInvalid balanced_countValid
      dest: parseNPSValue_Some split: sum.splits option.splits if_splits)

lemma balanced_countRow:
  "countRow row cs t = Inr t' \<Longrightarrow> balanced t \<Longrightarrow> balanced t'"
proof (induction cs arbitrary: t)
  case Nil
  then show ?case by simp
next
  case (Cons c cs)
  then show ?case
    by (auto split: sum.splits dest: balanced_countCell)
qed

lemma balanced_countRows:
  "countRows data cs t = Inr t' \<Longrightarrow> balanced t \<Longrightarrow> balanced t'"
proof (induction data arbitrary: t)
  case Nil
  then show ?case by simp
next
  case (Cons row rows)
  then show ?case
    by (auto split: sum.splits dest: balanced_countRow)
qed

lemma summary_zero:
  "totalRespostas' t = 0 \<Longrightarrow> summary cs an t = emptyNPSData cs an (valoresIgnorados' t)"
  by (simp add: summary_def)

lemma tallyColumns_cases:
  assumes "tallyColumns data cs an = Inr r"
  shows "(\<exists>a b c. r = emptyNPSData a b c)
         \<or> (\<exists>t. countRows data cs initialTally = Inr t \<and> totalRespostas' t \<noteq> 0
                \<and> r = summary cs an t)"
proof (cases "countRows data cs initialTally")
  case (Inl e)
  then show ?thesis using assms by (simp add: tallyColumns_def)
next
  case (Inr t)
  then have r: "r = summary cs an t" using assms by (simp add: tallyColumns_def)
  show ?thesis
  proof (cases "totalRespostas' t = 0")
    case True
    then show ?thesis using r summary_zero by blast
  next
    case False
    then show ?thesis using r Inr by blast
  qed
qed

lemma calculateNPS_cases:
  assumes "calculateNPS data sel = Inr r"
  shows "(\<exists>a b c. r = emptyNPSData a b c)
         \<or> (\<exists>cs an t. countRows data cs initialTally = Inr t \<and> totalRespostas' t \<noteq> 0
                \<and> r = summary cs an t)"
proof (cases "length data = 0")
  case True
  then have "r = emptyNPSData [] [] []" using assms by (simp add: calculateNPS_def)
  then show ?thesis by blast
next
  case nonempty: False
  show ?thesis
  proof (cases "given sel")
    case True
    then have "tallyColumns data (the sel) (Object_keys (hd data)) = Inr r"
      using assms nonempty by (simp add: calculateNPS_def)
    from tallyColumns_cases [OF this] show ?thesis by blast
  next
    case False
    then obtain res where res: "identifyNPSColumns data = Inr res"
      using assms nonempty by (cases "identifyNPSColumns data") (simp_all add: calculateNPS_def)
    show ?thesis
    proof (cases "length (columns res) = 0")
      case True
      then have "r = emptyNPSData [] (analyzedColumns res) []"
        using assms nonempty False res by (simp add: calculateNPS_def)
      then show ?thesis by blast
    next
      case cols: False
      then have "tallyColumns data (columns res) (analyzedColumns res) = Inr r"
        using assms nonempty False res by (simp add: calculateNPS_def)
      from tallyColumns_cases [OF this] show ?thesis by blast
    qed
  qed
qed

lemma percentages_summary:
  assumes "balanced t" and "totalRespostas' t \<noteq> 0"
  shows "percentualDetratores (summary cs an t) + percentualNeutros (summary cs an t)
         + percentualPromotores (summary cs an t) = 100"
proof -
  have "real (detratores' t) + real (neutros' t) + real (promotores' t) = real (totalRespostas' t)"
    using assms(1) unfolding balanced_def by (metis of_nat_add)
  moreover have "real (totalRespostas' t) \<noteq> 0" using assms(2) by simp
  ultimately have "(real (detratores' t) + real (neutros' t) + real (promotores' t)) / real (totalRespostas' t) * 100 = 100"
    by simp
  then show ?thesis
    using assms(2) by (simp add: summary_def Let_def add_divide_distrib distrib_right)
qed

text \<open>
  C2. In the summary \<open>calculateNPS\<close> returns, the three percentages add up to 100 when
  there is a valid answer, and are all 0 when there is none. The arithmetic is that of the
  reals: the rounding of binary64 is what the claim sets aside.
\<close>

theorem calculateNPS_percentages:
  "calculateNPS data sel = Inr r \<Longrightarrow>
     (totalRespostas r > 0 \<longrightarrow>
        percentualDetratores r + percentualNeutros r + percentualPromotores r = 100)
     \<and> (totalRespostas r = 0 \<longrightarrow>
        percentualDetratores r = 0 \<and> percentualNeutros r = 0 \<and> percentualPromotores r = 0)"
proof -
  assume a: "calculateNPS data sel = Inr r"
  from calculateNPS_cases [OF a] show ?thesis
  proof
    assume "\<exists>a b c. r = emptyNPSData a b c"
    then show ?thesis by (auto simp add: emptyNPSData_def)
  next
    assume "\<exists>cs an t. countRows data cs initialTally = Inr t \<and> totalRespostas' t \<noteq> 0
                \<and> r = summary cs an t"
    then obtain cs an t where t: "countRows data cs initialTally = Inr t"
      and nz: "totalRespostas' t \<noteq> 0" and r: "r = summary cs an t" by blast
    have b: "balanced t" using balanced_countRows [OF t balanced_initial] .
    have "totalRespostas r = totalRespostas' t" using nz r by (simp add: summary_def Let_def)
    then show ?thesis using percentages_summary [OF b nz, of cs an] nz r by simp
  qed
qed

theorem calculateNPS_percentages_witness:
  "(\<exists>r. calculateNPS fourAnswers (Some [js ''score'']) = Inr r \<and> totalRespostas r = 4
        \<and> percentualDetratores r = 25 \<and> percentualNeutros r = 25
        \<and> percentualPromotores r = 50
        \<and> percentualDetratores r + percentualNeutros r + percentualPromotores r = 100)
   \<and> (\<exists>r. calculateNPS twoWords (Some [js ''score'']) = Inr r \<and> totalRespostas r = 0
        \<and> percentualDetratores r = 0 \<and> percentualNeutros r = 0
        \<and> percentualPromotores r = 0)"
proof
  obtain r where r: "calculateNPS fourAnswers (Some [js ''score'']) = Inr r"
    using fourAnswers_summary by (cases "calculateNPS fourAnswers (Some [js ''score''])") auto
  then have v: "totalRespostas r = 4" "percentualDetratores r = 25" "percentualNeutros r = 25"
    "percentualPromotores r = 50"
    using fourAnswers_summary by simp_all
  show "\<exists>r. calculateNPS fourAnswers (Some [js ''score'']) = Inr r \<and> totalRespostas r = 4
        \<and> percentualDetratores r = 25 \<and> percentualNeutros r = 25
        \<and> percentualPromotores r = 50
        \<and> percentualDetratores r + percentualNeutros r + percentualPromotores r = 100"
    using calculateNPS_percentages [OF r] r v by simp
next
  have r: "calculateNPS twoWords (Some [js ''score''])
     = Inr (emptyNPSData [js ''score''] [js ''score''] [js ''abc''])"
    by (rule twoWords_summary)
  have z: "totalRespostas (emptyNPSData [js ''score''] [js ''score''] [js ''abc'']) = 0"
    by (simp add: emptyNPSData_def)
  show "\<exists>r. calculateNPS twoWords (Some [js ''score'']) = Inr r \<and> totalRespostas r = 0
        \<and> percentualDetratores r = 0 \<and> percentualNeutros r = 0
        \<and> percentualPromotores r = 0"
    using calculateNPS_percentages [OF r] r z by simp
qed

text \<open>
  C3, as amended. In the summary \<open>calculateNPS\<close> returns, the keys of the histogram are
  exactly the integers 0 to 10 when there is a valid answer; without one the summary is
  the empty one, whose histogram has no key.
\<close>

theorem calculateNPS_histogram:
  "calculateNPS data sel = Inr r \<Longrightarrow>
     (totalRespostas r > 0 \<longrightarrow> dom (respostasPorNota r) = {0..10})
     \<and> (totalRespostas r = 0 \<longrightarrow> respostasPorNota r = Map.empty)"
proof -
  assume a: "calculateNPS data sel = Inr r"
  from calculateNPS_cases [OF a] show ?thesis
  proof
    assume "\<exists>a b c. r = emptyNPSData a b c"
    then show ?thesis by (auto simp add: emptyNPSData_def)
  next
    assume "\<exists>cs an t. countRows data cs initialTally = Inr t \<and> totalRespostas' t \<noteq> 0
                \<and> r = summary cs an t"
    then obtain cs an t where t: "countRows data cs initialTally = Inr t"
      and nz: "totalRespostas' t \<noteq> 0" and r: "r = summary cs an t" by blast
    have b: "balanced t" using balanced_countRows [OF t balanced_initial] .
    then show ?thesis using nz r by (simp add: summary_def Let_def balanced_def)
  qed
qed

theorem calculateNPS_histogram_witness:
  "(\<exists>r. calculateNPS fourAnswers (Some [js ''score'']) = Inr r \<and> totalRespostas r = 4
        \<and> dom (respostasPorNota r) = {0..10})
   \<and> (\<exists>r. calculateNPS twoWords (Some [js ''score'']) = Inr r \<and> totalRespostas r = 0
        \<and> respostasPorNota r = Map.empty)"
proof
  obtain r where r: "calculateNPS fourAnswers (Some [js ''score'']) = Inr r"
    using fourAnswers_summary by (cases "calculateNPS fourAnswers (Some [js ''score''])") auto
  then have v: "totalRespostas r = 4"
    using fourAnswers_summary by simp
  show "\<exists>r. calculateNPS fourAnswers (Some [js ''score'']) = Inr r \<and> totalRespostas r = 4
        \<and> dom (respostasPorNota r) = {0..10}"
    using calculateNPS_histogram [OF r] r v by simp
next
  have r: "calculateNPS twoWords (Some [js ''score''])
     = Inr (emptyNPSData [js ''score''] [js ''score''] [js ''abc''])"
    by (rule twoWords_summary)
  have z: "totalRespostas (emptyNPSData [js ''score''] [js ''score''] [js ''abc'']) = 0"
    by (simp add: emptyNPSData_def)
  show "\<exists>r. calculateNPS twoWords (Some [js ''score'']) = Inr r \<and> totalRespostas r = 0
        \<and> respostasPorNota r = Map.empty"
    using calculateNPS_histogram [OF r] r z by simp
qed

text \<open>
  The claim as stated, with every key present also without a valid answer, fails on
  \<open>twoWords\<close>: the histogram of the summary is empty.
\<close>

theorem calculateNPS_histogram_counterexample:
  "calculateNPS twoWords (Some [js ''score''])
     = Inr (emptyNPSData [js ''score''] [js ''score''] [js ''abc''])
   \<and> dom (respostasPorNota (emptyNPSData [js ''score''] [js ''score''] [js ''abc''])) = {}
   \<and> dom (respostasPorNota (emptyNPSData [js ''score''] [js ''score''] [js ''abc''])) \<noteq> {0..10}"
  by (simp add: twoWords_summary) (simp add: emptyNPSData_def)

subsection \<open>The count of invalid answers\<close>

lemma failedCells_Cons:
  "failedCells (row # rows) cs = length (filter (failedCell row) cs) + failedCells rows cs"
  by (simp add: failedCells_def filter_map comp_def)

lemma invalid_countValid:
  "respostasInvalidasCount' (countValid v t) = respostasInvalidasCount' t"
  by (simp add: countValid_def Let_def)

lemma invalid_countCell:
  "countCell row c t = Inr t' \<Longrightarrow>
     respostasInvalidasCount' t' = respostasInvalidasCount' t + (if failedCell row c then 1 else 0)"
  using parseNPSValue_valid [of "StringValue (the (map_of row c))"]
    parseNPSValue_Some [of "StringValue (the (map_of row c))"]
  by (auto simp add: countCell_def ownProperty_def failedCell_def invalid_countValid
      countInvalid_def Let_def split: if_splits option.splits)

lemma invalid_countRow:
  "countRow row cs t = Inr t' \<Longrightarrow>
     respostasInvalidasCount' t' = respostasInvalidasCount' t + length (filter (failedCell row) cs)"
proof (induction cs arbitrary: t)
  case Nil
  then show ?case by simp
next
  case (Cons c cs)
  then obtain t1 where c: "countCell row c t = Inr t1" and r: "countRow row cs t1 = Inr t'"
    by (auto split: sum.splits)
  show ?case using invalid_countCell [OF c] Cons.IH [OF r] by simp
qed

lemma invalid_countRows:
  "countRows data cs t = Inr t' \<Longrightarrow>
     respostasInvalidasCount' t' = respostasInvalidasCount' t + failedCells data cs"
proof (induction data arbitrary: t)
  case Nil
  then show ?case by (simp add: failedCells_def)
next
  case (Cons row rows)
  then obtain t1 where c: "countRow row cs t = Inr t1" and r: "countRows rows cs t1 = Inr t'"
    by (auto split: sum.splits)
  show ?case using invalid_countRow [OF c] Cons.IH [OF r] by (simp add: failedCells_Cons)
qed

text \<open>
  With a valid answer, \<open>respostasInvalidas\<close> is the number of cells of the considered
  columns that are not blank and do not parse, each occurrence counted. Without one, it is
  the length of the list of ignored values, which holds each string once.
\<close>

lemma respostasInvalidas_with_answers:
  assumes "calculateNPS data sel = Inr r" and "totalRespostas r > 0"
  shows "respostasInvalidas r = failedCells data (colunasIdentificadas r)"
proof -
  from calculateNPS_cases [OF assms(1)] show ?thesis
  proof
    assume "\<exists>a b c. r = emptyNPSData a b c"
    then show ?thesis using assms(2) by (auto simp add: emptyNPSData_def)
  next
    assume "\<exists>cs an t. countRows data cs initialTally = Inr t \<and> totalRespostas' t \<noteq> 0
                \<and> r = summary cs an t"
    then obtain cs an t where t: "countRows data cs initialTally = Inr t"
      and nz: "totalRespostas' t \<noteq> 0" and r: "r = summary cs an t" by blast
    show ?thesis using invalid_countRows [OF t] nz r
      by (simp add: summary_def Let_def initialTally_def)
  qed
qed

lemma respostasInvalidas_without_answers:
  assumes "calculateNPS data sel = Inr r" and "totalRespostas r = 0"
  shows "respostasInvalidas r = length (valoresIgnorados (debug r))"
proof -
  from calculateNPS_cases [OF assms(1)] show ?thesis
  proof
    assume "\<exists>a b c. r = emptyNPSData a b c"
    then show ?thesis by (auto simp add: emptyNPSData_def)
  next
    assume "\<exists>cs an t. countRows data cs initialTally = Inr t \<and> totalRespostas' t \<noteq> 0
                \<and> r = summary cs an t"
    then show ?thesis using assms(2) by (auto simp add: summary_def Let_def)
  qed
qed

lemma failedCells_twoWords: "failedCells twoWords [js ''score''] = 2"
  by (simp add: failedCells_def failedCell_def twoWords_def parse_abc nonblank_abc)

text \<open>
  C4. The claim holds on the path with a valid answer (lemma
  \<open>respostasInvalidas_with_answers\<close>) and fails on the other: for \<open>twoWords\<close>, where the
  same unparseable word stands in two cells, the summary says 1 and the cells that failed
  are 2.
\<close>

theorem respostasInvalidas_repeated_value:
  "calculateNPS twoWords (Some [js ''score''])
     = Inr (emptyNPSData [js ''score''] [js ''score''] [js ''abc''])
   \<and> respostasInvalidas (emptyNPSData [js ''score''] [js ''score''] [js ''abc'']) = 1
   \<and> failedCells twoWords [js ''score''] = 2"
  by (simp add: twoWords_summary failedCells_twoWords) (simp add: emptyNPSData_def)

subsection \<open>The keyword table\<close>

lemma firstKeyword_find:
  "firstKeyword s entries =
     (case find (\<lambda>e. includes_str s (fst e)) entries of
        None \<Rightarrow> NaN
      | Some e \<Rightarrow> Num (snd e))"
  by (induction entries) auto

lemma keyword_fallback:
  assumes "s \<noteq> []" and "isNaN (parseFloat (trim s))" and "takeWhile isDigit (trim s) = []"
  shows "parseNPSValue (StringValue s)
           = inRange (firstKeyword (toLowerCase (trim s)) wordToValue)"
  using assms by (simp add: parseNPSValue_def Let_def)

lemma startsWith_iff: "startsWith s w \<longleftrightarrow> (\<exists>q. s = w @ q)"
  by (induction s w rule: startsWith.induct) auto

lemma includes_str_iff: "includes_str s w \<longleftrightarrow> (\<exists>p q. s = p @ w @ q)"
proof (induction s)
  case Nil
  then show ?case by simp
next
  case (Cons c cs)
  have "(\<exists>p q. c # cs = p @ w @ q) \<longleftrightarrow> (\<exists>q. c # cs = w @ q) \<or> (\<exists>p q. cs = p @ w @ q)"
  proof
    assume "\<exists>p q. c # cs = p @ w @ q"
    then obtain p q where pq: "c # cs = p @ w @ q" by blast
    show "(\<exists>q. c # cs = w @ q) \<or> (\<exists>p q. cs = p @ w @ q)"
    proof (cases p)
      case Nil
      then show ?thesis using pq by auto
    next
      case (Cons a p')
      then have "cs = p' @ w @ q" using pq by simp
      then show ?thesis by blast
    qed
  next
    assume "(\<exists>q. c # cs = w @ q) \<or> (\<exists>p q. cs = p @ w @ q)"
    then show "\<exists>p q. c # cs = p @ w @ q"
    proof
      assume "\<exists>q. c # cs = w @ q"
      then obtain q where "c # cs = [] @ w @ q" by auto
      then show ?thesis by blast
    next
      assume "\<exists>p q. cs = p @ w @ q"
      then obtain p q where "c # cs = (c # p) @ w @ q" by auto
      then show ?thesis by blast
    qed
  qed
  then show ?case using Cons by (simp add: startsWith_iff)
qed

lemma bom_in_muito_bom:
  assumes "includes_str s (js ''muito bom'')"
  shows "includes_str s (js ''bom'')"
proof -
  obtain p q where "s = p @ js ''muito bom'' @ q"
    using assms includes_str_iff by blast
  moreover have "js ''muito bom'' = js ''muito '' @ js ''bom''" by (simp add: js_def)
  ultimately have "s = (p @ js ''muito '') @ js ''bom'' @ q" by simp
  then show ?thesis using includes_str_iff by blast
qed

text \<open>
  The fallback takes the first entry of the table whose word occurs (lemmas
  \<open>keyword_fallback\<close> and \<open>firstKeyword_find\<close>). The entry \<open>muito bom\<close> comes after
  \<open>bom\<close>, which occurs wherever it does, so it never decides.
\<close>

lemma muito_bom_entry_unreachable:
  assumes "includes_str lowerValue (js ''muito bom'')"
  shows "firstKeyword lowerValue wordToValue \<in> {Num 0, Num 2, Num 3, Num 5, Num 7, Num 8}"
  using bom_in_muito_bom [OF assms] by (simp add: wordToValue_def)

text \<open>
  C5. The cell \<open>muito bom\<close> parses to the valid value 8, through the entry \<open>bom\<close>, where
  the claim has 9.
\<close>

theorem parseNPSValue_muito_bom:
  "parseNPSValue (StringValue (js ''muito bom'')) = \<lparr>valid = True, pvalue = Some 8\<rparr>"
  by (simp add: parse_defs str_defs)

subsection \<open>From text to records\<close>

lemma parseCSV_separatorRowText:
  "parseCSV separatorRowText
     = [[js ''a'', js ''b''], [js ''1'', js ''2''], [[], [], []], [js ''3'', js ''4'']]"
  by (simp add: separatorRowText_def csv_defs str_defs)

lemma csvToObjects_separatorRowText:
  "csvToObjects [[js ''a'', js ''b''], [js ''1'', js ''2''], [[], [], []], [js ''3'', js ''4'']]
     = [[(js ''a'', js ''1''), (js ''b'', js ''2''), (js ''_rowId'', js ''row_1'')],
        [(js ''a'', []), (js ''b'', []), (js ''_rowId'', js ''row_2'')],
        [(js ''a'', js ''3''), (js ''b'', js ''4''), (js ''_rowId'', js ''row_3'')]]"
  by (simp add: csvToObjects_def normalizeHeader_def rowToObject_def putCell_def
      setProperty_def hasKey_def enumerate_eq_zip upt_rec showNat_digit str_defs Let_def)

lemma cleanSheetData_separatorRowText:
  "cleanSheetData
     [[(js ''a'', js ''1''), (js ''b'', js ''2''), (js ''_rowId'', js ''row_1'')],
      [(js ''a'', []), (js ''b'', []), (js ''_rowId'', js ''row_2'')],
      [(js ''a'', js ''3''), (js ''b'', js ''4''), (js ''_rowId'', js ''row_3'')]]
   = [[(js ''a'', js ''1''), (js ''b'', js ''2''), (js ''_rowId'', js ''row_1'')],
      [(js ''a'', []), (js ''b'', []), (js ''_rowId'', js ''row_2'')],
      [(js ''a'', js ''3''), (js ''b'', js ''4''), (js ''_rowId'', js ''row_3'')]]"
  by (simp add: cleanSheetData_def cleanRow_def hasContent_def object_defs
      setProperty_def isDigit_def str_defs)

text \<open>
  C6. On \<open>separatorRowText\<close> the three steps keep the record of the row that has
  separators only: its cells are empty, and its \<open>_rowId\<close> is not, so that
  \<open>cleanSheetData\<close> finds a value with content. The claim has two records left.
\<close>

theorem pipeline_keeps_separator_row:
  "cleanSheetData (csvToObjects (parseCSV separatorRowText))
     = [[(js ''a'', js ''1''), (js ''b'', js ''2''), (js ''_rowId'', js ''row_1'')],
        [(js ''a'', []), (js ''b'', []), (js ''_rowId'', js ''row_2'')],
        [(js ''a'', js ''3''), (js ''b'', js ''4''), (js ''_rowId'', js ''row_3'')]]"
  by (simp only: parseCSV_separatorRowText csvToObjects_separatorRowText
      cleanSheetData_separatorRowText)

subsection \<open>detectSeparator\<close>

lemma trim_Nil_iff: "trim s = [] \<longleftrightarrow> (\<forall>c \<in> set s. isWhiteSpace c)"
proof
  assume "trim s = []"
  then have "\<forall>c \<in> set (dropWhile isWhiteSpace s). isWhiteSpace c"
    by (simp add: trim_def trimEnd_def trimStart_def dropWhile_eq_Nil_conv)
  then have "dropWhile isWhiteSpace s = []"
    by (metis hd_dropWhile hd_in_set)
  then show "\<forall>c \<in> set s. isWhiteSpace c"
    by (simp add: dropWhile_eq_Nil_conv)
next
  assume "\<forall>c \<in> set s. isWhiteSpace c"
  then have "\<forall>c \<in> set (dropWhile isWhiteSpace s). isWhiteSpace c"
    by (meson set_dropWhileD)
  then show "trim s = []"
    by (simp add: trim_def trimEnd_def trimStart_def)
qed

lemma splitLines_units: "l \<in> set (splitLines s) \<Longrightarrow> set l \<subseteq> set s"
proof (induction s arbitrary: l)
  case Nil
  then show ?case by simp
next
  case (Cons c cs)
  show ?case
  proof (cases "c = 10")
    case True
    then show ?thesis using Cons by auto
  next
    case nl: False
    show ?thesis
    proof (cases "c = 13 \<and> startsWith cs [10]")
      case True
      then obtain ds where ds: "cs = 10 # ds" by (cases cs) auto
      then have "l = [] \<or> l \<in> set (splitLines ds)" using Cons.prems True nl by auto
      moreover have "set (splitLines ds) \<subseteq> set (splitLines cs)" using ds by auto
      ultimately show ?thesis using Cons.IH by fastforce
    next
      case False
      show ?thesis
      proof (cases "splitLines cs")
        case Nil
        then show ?thesis using Cons.prems nl False by auto
      next
        case (Cons a ls)
        then have l: "l = c # a \<or> l \<in> set ls" using Cons.prems nl False by auto
        have "set a \<subseteq> set cs" using Cons Cons.IH [of a] by simp
        moreover have "l \<in> set ls \<Longrightarrow> set l \<subseteq> set cs" using Cons Cons.IH [of l] by simp
        ultimately show ?thesis using l by auto
      qed
    qed
  qed
qed

lemma blank_text_no_line:
  assumes "trim csvText = []"
  shows "find (\<lambda>line. trim line \<noteq> []) (splitLines csvText) = None"
proof -
  have "trim l = []" if "l \<in> set (splitLines csvText)" for l
    using that assms splitLines_units [of l csvText] by (auto simp add: trim_Nil_iff)
  then show ?thesis by (simp add: find_None_iff)
qed

text \<open>
  C8, as amended. \<open>detectSeparator\<close> looks at the first non-blank line only and
  returns, of comma, semicolon and tab in this order, the first whose number of
  occurrences is the largest: the comma when no candidate occurs more often, the semicolon
  when it occurs more often than the comma and the tab does not occur more often than the
  semicolon, the tab otherwise; and the comma when no line is non-blank.
\<close>

theorem detectSeparator_first_maximum:
  "detectSeparator csvText =
     (case find (\<lambda>line. trim line \<noteq> []) (splitLines csvText) of
        None \<Rightarrow> js '',''
      | Some firstLine \<Rightarrow>
          if countUnit 59 firstLine \<le> countUnit 44 firstLine
             \<and> countUnit 9 firstLine \<le> countUnit 44 firstLine then js '',''
          else if countUnit 9 firstLine \<le> countUnit 59 firstLine then js '';''
          else [9])"
proof (cases "trim csvText = []")
  case True
  then show ?thesis by (simp add: detectSeparator_def blank_text_no_line)
next
  case False
  then show ?thesis
    by (auto simp add: detectSeparator_def Let_def split: option.splits)
qed

theorem detectSeparator_first_maximum_witness:
  "detectSeparator (js ''x;y;z\<newline>1;2;3'') = js '';''
   \<and> detectSeparator (js ''a,b;c'') = js '',''
   \<and> detectSeparator tiedLine = js '';''
   \<and> detectSeparator (js '' '') = js '',''"
  using detectSeparator_first_maximum [of "js ''x;y;z\<newline>1;2;3''"]
    detectSeparator_first_maximum [of "js ''a,b;c''"]
    detectSeparator_first_maximum [of tiedLine]
    detectSeparator_first_maximum [of "js '' ''"]
  by (simp add: tiedLine_def countUnit_def str_defs)

text \<open>
  The claim as stated, with the comma on every tie for the maximum, fails on \<open>tiedLine\<close>:
  semicolon and tab occur once each, the comma never, and the result is the semicolon.
\<close>

theorem detectSeparator_tie_counterexample:
  "detectSeparator tiedLine = js '';''
   \<and> countUnit 59 tiedLine = countUnit 9 tiedLine
   \<and> countUnit 44 tiedLine < countUnit 59 tiedLine
   \<and> detectSeparator tiedLine \<noteq> js '',''"
  by (simp add: tiedLine_def detectSeparator_def countUnit_def Let_def str_defs)

subsection \<open>Quoted fields\<close>

lemma escapeQuotes_simps:
  "escapeQuotes [] = []"
  "escapeQuotes (34 # c) = 34 # 34 # escapeQuotes c"
  "x \<noteq> 34 \<Longrightarrow> escapeQuotes (x # c) = x # escapeQuotes c"
  by (simp_all add: escapeQuotes_def)

lemma scan_other:
  "c \<noteq> 34 \<Longrightarrow>
     scanLine sep (c # cs) vals cur inq =
       (if [c] = sep \<and> \<not> inq then scanLine sep cs (vals @ [cur]) [] inq
        else scanLine sep cs vals (cur @ [c]) inq)"
  by (cases cs) simp_all

lemma scan_pair:
  "scanLine sep (34 # 34 # cs) vals cur inq = scanLine sep cs vals (cur @ [34]) inq"
  by simp

lemma scan_toggle:
  "cs = [] \<or> hd cs \<noteq> 34 \<Longrightarrow>
     scanLine sep (34 # cs) vals cur inq = scanLine sep cs vals cur (\<not> inq)"
  by (cases cs) auto

lemma scan_plain:
  "34 \<notin> set p \<Longrightarrow> 44 \<notin> set p \<Longrightarrow>
     scanLine [44] (p @ t) vals cur False = scanLine [44] t vals (cur @ p) False"
proof (induction p arbitrary: cur)
  case Nil
  then show ?case by simp
next
  case (Cons x p)
  then have "scanLine [44] (x # (p @ t)) vals cur False
               = scanLine [44] (p @ t) vals (cur @ [x]) False"
    by (simp add: scan_other)
  then show ?case using Cons by simp
qed

lemma scan_inside:
  "t = [] \<or> hd t \<noteq> 34 \<Longrightarrow>
     scanLine sep (escapeQuotes c @ 34 # t) vals cur True = scanLine sep t vals (cur @ c) False"
proof (induction c arbitrary: cur)
  case Nil
  then show ?case by (simp add: escapeQuotes_simps scan_toggle del: scanLine.simps)
next
  case (Cons x c)
  show ?case
  proof (cases "x = 34")
    case True
    then show ?thesis using Cons.IH [OF Cons.prems, of "cur @ [34]"]
      by (simp add: escapeQuotes_simps del: scanLine.simps add: scan_pair)
  next
    case False
    then show ?thesis using Cons.IH [OF Cons.prems, of "cur @ [x]"]
      by (simp add: escapeQuotes_simps scan_other del: scanLine.simps)
  qed
qed

lemma scan_quoted:
  "\<exists>x \<in> set c. x \<noteq> 34 \<Longrightarrow> t = [] \<or> hd t \<noteq> 34 \<Longrightarrow>
     scanLine sep (quoteField c @ t) vals cur False = scanLine sep t vals (cur @ c) False"
proof (induction c arbitrary: cur)
  case Nil
  then show ?case by simp
next
  case (Cons x c)
  show ?case
  proof (cases "x = 34")
    case True
    then have "\<exists>y \<in> set c. y \<noteq> 34" using Cons.prems(1) by auto
    from Cons.IH [OF this Cons.prems(2), of "cur @ [34]"] True show ?thesis
      by (simp add: quoteField_def escapeQuotes_simps del: scanLine.simps add: scan_pair)
  next
    case False
    have "scanLine sep (34 # (escapeQuotes (x # c) @ 34 # t)) vals cur False
            = scanLine sep (escapeQuotes (x # c) @ 34 # t) vals cur True"
      using False by (simp add: scan_toggle escapeQuotes_simps del: scanLine.simps)
    then show ?thesis using scan_inside [OF Cons.prems(2), of sep "x # c" vals cur]
      by (simp add: quoteField_def)
  qed
qed


lemma has_plain_unit:
  assumes "c \<noteq> []" and "\<not> includes_str c [34, 34]" and "\<not> (hd c = 34 \<and> last c = 34)"
  shows "\<exists>x \<in> set c. x \<noteq> 34"
proof (cases c)
  case Nil
  then show ?thesis using assms(1) by simp
next
  case (Cons a r)
  show ?thesis
  proof (cases r)
    case Nil
    then show ?thesis using Cons assms(3) by auto
  next
    case (Cons b r')
    then show ?thesis using \<open>c = a # r\<close> assms(2) by auto
  qed
qed

lemma collapseQuotes_id: "\<not> includes_str c [34, 34] \<Longrightarrow> collapseQuotes c = c"
  by (induction c rule: collapseQuotes.induct) auto

lemma no_quote_no_pair: "34 \<notin> set p \<Longrightarrow> \<not> includes_str p [34, 34]"
  by (induction p) auto

lemma cleanValue_content:
  assumes "trim c = c" and "\<not> includes_str c [34, 34]" and "\<not> (hd c = 34 \<and> last c = 34)"
  shows "cleanValue c = c"
proof -
  have "stripEnclosingQuotes c = c"
    using assms(3) by (auto simp add: stripEnclosingQuotes_def)
  then show ?thesis using assms(1,2) by (simp add: cleanValue_def collapseQuotes_id)
qed

lemma cleanValue_plain:
  assumes "trim p = p" and "34 \<notin> set p"
  shows "cleanValue p = p"
proof -
  have "\<not> (hd p = 34 \<and> last p = 34 \<and> 2 \<le> length p)"
    using assms(2) by (cases p) auto
  then show ?thesis
    using assms by (auto simp add: cleanValue_def stripEnclosingQuotes_def collapseQuotes_id
        no_quote_no_pair)
qed

lemma splitLines_single: "10 \<notin> set s \<Longrightarrow> splitLines s = [s]"
proof (induction s)
  case Nil
  then show ?case by simp
next
  case (Cons c cs)
  then have "\<not> startsWith cs [10]" by (cases cs) auto
  then show ?case using Cons by simp
qed

lemma set_escapeQuotes: "set (escapeQuotes c) \<subseteq> set c"
  by (auto simp add: escapeQuotes_def split: if_splits)

lemma not_blank_with_quote: "34 \<in> set s \<Longrightarrow> trim s \<noteq> []"
proof -
  have "\<not> isWhiteSpace 34" by (simp add: isWhiteSpace_def)
  then show "34 \<in> set s \<Longrightarrow> trim s \<noteq> []"
    using trim_Nil_iff by blast
qed

lemma scanLine_not_Nil: "scanLine sep s vals cur inq \<noteq> []"
  by (induction sep s vals cur inq rule: scanLine.induct) auto

lemma parseCSV_one_line:
  assumes "10 \<notin> set s" and "34 \<in> set s"
  shows "parseCSV s = [map cleanValue (scanLine (detectSeparator s) s [] [] False)]"
  using assms by (simp add: parseCSV_def Let_def parseLine_def splitLines_single
      not_blank_with_quote scanLine_not_Nil)

text \<open>
  C7, as amended. A line that is one quoted field gives one row of one field, the content
  of the field as it was before quoting, when the content is not empty, has no white
  space at either end, no line feed, no two quotes in a row, and does not both begin and
  end with a quote. The same field between two plain fields, on a line where the comma is
  the separator detected, is the second of three fields: the comma inside it does not
  split it.
\<close>

theorem parseCSV_quoted_field:
  assumes "c \<noteq> []" and "trim c = c" and "10 \<notin> set c"
    and "\<not> includes_str c [34, 34]" and "\<not> (hd c = 34 \<and> last c = 34)"
  shows "parseCSV (quoteField c) = [[c]]
     \<and> (trim p = p \<and> 34 \<notin> set p \<and> 44 \<notin> set p \<and> 10 \<notin> set p
          \<and> trim q = q \<and> 34 \<notin> set q \<and> 44 \<notin> set q \<and> 10 \<notin> set q
          \<and> detectSeparator (p @ [44] @ quoteField c @ [44] @ q) = [44]
        \<longrightarrow> parseCSV (p @ [44] @ quoteField c @ [44] @ q) = [[p, c, q]])"
proof (intro conjI impI)
  have plain: "\<exists>x \<in> set c. x \<noteq> 34" using has_plain_unit assms(1,4,5) by blast
  have cv: "cleanValue c = c" using cleanValue_content assms(2,4,5) by blast
  have nl: "10 \<notin> set (quoteField c)"
    using assms(3) set_escapeQuotes [of c] by (auto simp add: quoteField_def)
  have qt: "34 \<in> set (quoteField c)" by (simp add: quoteField_def)
  have "scanLine (detectSeparator (quoteField c)) (quoteField c @ []) [] [] False = [c]"
    using scan_quoted [OF plain, of "[]"] by simp
  then show "parseCSV (quoteField c) = [[c]]"
    using parseCSV_one_line [OF nl qt] cv by simp
next
  assume "trim p = p \<and> 34 \<notin> set p \<and> 44 \<notin> set p \<and> 10 \<notin> set p
          \<and> trim q = q \<and> 34 \<notin> set q \<and> 44 \<notin> set q \<and> 10 \<notin> set q
          \<and> detectSeparator (p @ [44] @ quoteField c @ [44] @ q) = [44]"
  then have a: "trim p = p" "34 \<notin> set p" "44 \<notin> set p" "10 \<notin> set p"
    "trim q = q" "34 \<notin> set q" "44 \<notin> set q" "10 \<notin> set q"
    "detectSeparator (p @ [44] @ quoteField c @ [44] @ q) = [44]"
    by simp_all
  have plain: "\<exists>x \<in> set c. x \<noteq> 34" using has_plain_unit assms(1,4,5) by blast
  have cv: "cleanValue c = c" using cleanValue_content assms(2,4,5) by blast
  let ?line = "p @ [44] @ quoteField c @ [44] @ q"
  have nl: "10 \<notin> set ?line"
    using assms(3) a(4,8) set_escapeQuotes [of c] by (auto simp add: quoteField_def)
  have qt: "34 \<in> set ?line" by (simp add: quoteField_def)
  have "scanLine [44] ?line [] [] False = scanLine [44] (44 # quoteField c @ 44 # q) [] p False"
    using scan_plain [OF a(2,3), of "44 # quoteField c @ 44 # q" "[]" "[]"] by simp
  also have "\<dots> = scanLine [44] (quoteField c @ 44 # q) [p] [] False"
    by (simp add: scan_other del: scanLine.simps)
  also have "\<dots> = scanLine [44] (44 # q) [p] c False"
    using scan_quoted [OF plain, of "44 # q" "[44]" "[p]" "[]"] by simp
  also have "\<dots> = scanLine [44] q [p, c] [] False"
    by (simp add: scan_other del: scanLine.simps)
  also have "\<dots> = [p, c, q]"
    using scan_plain [OF a(6,7), of "[]" "[p, c]" "[]"] by simp
  finally have "scanLine [44] ?line [] [] False = [p, c, q]" .
  then show "parseCSV ?line = [[p, c, q]]"
    using parseCSV_one_line [OF nl qt] a(9) cv cleanValue_plain [OF a(1,2)]
      cleanValue_plain [OF a(5,6)] by simp
qed

lemma quotedContent_units:
  "quotedContent
     = [72, 101, 32, 115, 97, 105, 100, 32, 34, 104, 105, 34, 44, 32, 99, 111, 111, 108]"
  by (simp add: quotedContent_def js_def)

lemma quoteField_quotedContent: "quoteField quotedContent = quotedLine"
  by (simp add: quoteField_def escapeQuotes_def quotedContent_def quotedLine_def js_def)

lemma quotedContent_fits:
  "quotedContent \<noteq> [] \<and> trim quotedContent = quotedContent \<and> 10 \<notin> set quotedContent
   \<and> \<not> includes_str quotedContent [34, 34]
   \<and> \<not> (hd quotedContent = 34 \<and> last quotedContent = 34)"
  by (simp add: quotedContent_units trim_def trimStart_def trimEnd_def isWhiteSpace_def)

lemma fields_x_y_fit:
  "trim (js ''x'') = js ''x'' \<and> 34 \<notin> set (js ''x'') \<and> 44 \<notin> set (js ''x'')
   \<and> 10 \<notin> set (js ''x'')
   \<and> trim (js ''y'') = js ''y'' \<and> 34 \<notin> set (js ''y'') \<and> 44 \<notin> set (js ''y'')
   \<and> 10 \<notin> set (js ''y'')"
  by (simp add: str_defs)

lemma comma_detected:
  "detectSeparator (js ''x'' @ [44] @ quoteField quotedContent @ [44] @ js ''y'') = [44]"
  by (simp add: quoteField_def escapeQuotes_def quotedContent_units detectSeparator_def
      countUnit_def Let_def str_defs)

theorem parseCSV_quoted_field_witness:
  \<open>quoteField quotedContent = quotedLine
   \<and> parseCSV quotedLine = [[quotedContent]]
   \<and> js ''x'' @ [44] @ quotedLine @ [44] @ js ''y'' = js ''x,"He said ""hi"", cool",y''
   \<and> parseCSV (js ''x'' @ [44] @ quotedLine @ [44] @ js ''y'')
       = [[js ''x'', quotedContent, js ''y'']]\<close>
proof -
  have f: "quotedContent \<noteq> []" "trim quotedContent = quotedContent"
    "10 \<notin> set quotedContent" "\<not> includes_str quotedContent [34, 34]"
    "\<not> (hd quotedContent = 34 \<and> last quotedContent = 34)"
    using quotedContent_fits by blast+
  have l: \<open>js ''x'' @ [44] @ quotedLine @ [44] @ js ''y'' = js ''x,"He said ""hi"", cool",y''\<close>
    by (simp add: quotedLine_def js_def)
  show ?thesis
    using parseCSV_quoted_field [OF f, of "js ''x''" "js ''y''"] fields_x_y_fit comma_detected l
    by (simp add: quoteField_quotedContent)
qed


text \<open>
  The claim for every quoted field with a separator and an escaped quote inside fails
  where the clean-up of a field changes the content: a pair of quotes around the content
  is stripped, and blanks at its ends are trimmed.
\<close>

theorem parseCSV_quoted_field_counterexample:
  \<open>parseCSV (quoteField enclosedContent) = [[js ''a,b'']]
   \<and> parseCSV (quoteField enclosedContent) \<noteq> [[enclosedContent]]
   \<and> parseCSV (quoteField paddedContent) = [[js ''"x", y'']]
   \<and> parseCSV (quoteField paddedContent) \<noteq> [[paddedContent]]\<close>
  by (simp add: quoteField_def escapeQuotes_def enclosedContent_def paddedContent_def
      csv_defs str_defs)

subsection \<open>Where calculateNPS raises\<close>

lemma own_not_shadowed:
  "\<not> hasKey row (js ''hasOwnProperty'') \<Longrightarrow> ownProperty row k = Inr (map_of row k)"
  by (simp add: ownProperty_def)

lemma countCell_returns:
  "\<not> hasKey row (js ''hasOwnProperty'') \<Longrightarrow> \<exists>t'. countCell row c t = Inr t'"
  by (simp add: countCell_def own_not_shadowed split: option.splits)

lemma countRow_returns:
  "\<not> hasKey row (js ''hasOwnProperty'') \<Longrightarrow> \<exists>t'. countRow row cs t = Inr t'"
proof (induction cs arbitrary: t)
  case Nil
  then show ?case by simp
next
  case (Cons c cs)
  then obtain t1 where "countCell row c t = Inr t1" using countCell_returns by blast
  then show ?case using Cons by simp
qed

lemma countRows_returns:
  "\<forall>row \<in> set data. \<not> hasKey row (js ''hasOwnProperty'') \<Longrightarrow> \<exists>t'. countRows data cs t = Inr t'"
proof (induction data arbitrary: t)
  case Nil
  then show ?case by simp
next
  case (Cons row rows)
  then obtain t1 where "countRow row cs t = Inr t1" using countRow_returns [of row cs t] by auto
  then show ?case using Cons by simp
qed

lemma scanColumn_returns:
  "\<forall>row \<in> set data. \<not> hasKey row (js ''hasOwnProperty'') \<Longrightarrow>
     \<exists>r. scanColumn data c (n, s, vs) = Inr r"
proof (induction data arbitrary: n s vs)
  case Nil
  then show ?case by simp
next
  case (Cons row rows)
  then show ?case
    by (simp add: own_not_shadowed split: option.splits)
qed

lemma analyzeColumnValues_returns:
  assumes "\<forall>row \<in> set data. \<not> hasKey row (js ''hasOwnProperty'')"
  shows "\<exists>st. analyzeColumnValues data c = Inr st"
proof -
  obtain r where "scanColumn data c (0, 0, []) = Inr r"
    using scanColumn_returns [OF assms] by blast
  then show ?thesis by (cases r) (simp add: analyzeColumnValues_def)
qed

lemma identifyLoop_returns:
  assumes "\<forall>row \<in> set data. \<not> hasKey row (js ''hasOwnProperty'')"
  shows "\<exists>r. identifyLoop data hs (ic, an) = Inr r"
proof (induction hs arbitrary: ic an)
  case Nil
  then show ?case by simp
next
  case (Cons h hs)
  obtain st where "analyzeColumnValues data h = Inr st"
    using analyzeColumnValues_returns [OF assms] by blast
  then show ?case using Cons by simp
qed

lemma identifyNPSColumns_returns:
  assumes "\<forall>row \<in> set data. \<not> hasKey row (js ''hasOwnProperty'')"
  shows "\<exists>res. identifyNPSColumns data = Inr res"
proof -
  obtain r where "identifyLoop data (Object_keys (hd data)) ([], []) = Inr r"
    using identifyLoop_returns [OF assms] by blast
  then show ?thesis by (cases r) (simp add: identifyNPSColumns_def)
qed

lemma tallyColumns_returns:
  assumes "\<forall>row \<in> set data. \<not> hasKey row (js ''hasOwnProperty'')"
  shows "\<exists>r. tallyColumns data cs an = Inr r"
proof -
  obtain t where "countRows data cs initialTally = Inr t"
    using countRows_returns [OF assms] by blast
  then show ?thesis by (simp add: tallyColumns_def)
qed

text \<open>
  On records none of which has an own property \<open>hasOwnProperty\<close>, \<open>calculateNPS\<close>
  returns a summary; and when the identification then finds no column, the summary is the
  empty one, with the analysed columns as its only content.
\<close>

lemma calculateNPS_returns:
  assumes "\<forall>row \<in> set data. \<not> hasKey row (js ''hasOwnProperty'')"
  shows "\<exists>r. calculateNPS data sel = Inr r"
proof -
  obtain res where res: "identifyNPSColumns data = Inr res"
    using identifyNPSColumns_returns [OF assms] by blast
  show ?thesis
    using tallyColumns_returns [OF assms] res
    by (simp add: calculateNPS_def)
qed

lemma calculateNPS_no_columns:
  assumes "length data \<noteq> 0" and "\<not> given sel"
    and "identifyNPSColumns data = Inr res" and "columns res = []"
  shows "calculateNPS data sel = Inr (emptyNPSData [] (analyzedColumns res) [])"
  using assms by (simp add: calculateNPS_def)

lemma emptyNPSData_zero:
  "score (emptyNPSData [] an []) = 0 \<and> detratores (emptyNPSData [] an []) = 0
   \<and> neutros (emptyNPSData [] an []) = 0 \<and> promotores (emptyNPSData [] an []) = 0
   \<and> totalRespostas (emptyNPSData [] an []) = 0
   \<and> percentualDetratores (emptyNPSData [] an []) = 0
   \<and> percentualNeutros (emptyNPSData [] an []) = 0
   \<and> percentualPromotores (emptyNPSData [] an []) = 0
   \<and> colunasIdentificadas (emptyNPSData [] an []) = []
   \<and> respostasInvalidas (emptyNPSData [] an []) = 0
   \<and> debug (emptyNPSData [] an []) = \<lparr>colunasAnalisadas = an, valoresIgnorados = []\<rparr>"
  by (simp add: emptyNPSData_def)

lemma pipeline_shadowedMethod:
  "cleanSheetData (csvToObjects (parseCSV shadowedMethodText))
     = [[(js ''hasOwnProperty'', js ''5''), (js ''_rowId'', js ''row_1'')]]"
proof -
  have "parseCSV shadowedMethodText = [[js ''hasOwnProperty''], [js ''5'']]"
    by (simp add: shadowedMethodText_def csv_defs str_defs)
  moreover have "csvToObjects [[js ''hasOwnProperty''], [js ''5'']]
     = [[(js ''hasOwnProperty'', js ''5''), (js ''_rowId'', js ''row_1'')]]"
    by (simp add: csvToObjects_def normalizeHeader_def rowToObject_def putCell_def
      setProperty_def hasKey_def enumerate_eq_zip upt_rec showNat_digit str_defs Let_def)
  moreover have "cleanSheetData [[(js ''hasOwnProperty'', js ''5''), (js ''_rowId'', js ''row_1'')]]
     = [[(js ''hasOwnProperty'', js ''5''), (js ''_rowId'', js ''row_1'')]]"
    by (simp add: cleanSheetData_def cleanRow_def hasContent_def object_defs
      setProperty_def isDigit_def str_defs)
  ultimately show ?thesis by simp
qed

lemma shadowed_row_raises:
  "calculateNPS [[(js ''hasOwnProperty'', js ''5''), (js ''_rowId'', js ''row_1'')]] None
     = Inl TypeError"
  by (simp add: calculateNPS_def given_def identifyNPSColumns_def
      analyzeColumnValues_def object_defs isDigit_def js_def)

text \<open>
  C9. \<open>calculateNPS\<close> raises on a sheet that has a column named \<open>hasOwnProperty\<close>: the
  record holds the cell under that name, and the call \<open>row.hasOwnProperty(column)\<close> of
  \<open>analyzeColumnValues\<close> finds a string where it expects the method. The claim has
  \<open>calculateNPS\<close> never raise.
\<close>

theorem calculateNPS_shadowed_method:
  "calculateNPS shadowedMethod None = Inl TypeError
   \<and> calculateNPS (cleanSheetData (csvToObjects (parseCSV shadowedMethodText))) None
       = Inl TypeError"
proof
  show "calculateNPS shadowedMethod None = Inl TypeError"
    by (simp add: calculateNPS_def given_def shadowedMethod_def identifyNPSColumns_def
      analyzeColumnValues_def object_defs isDigit_def js_def)
  show "calculateNPS (cleanSheetData (csvToObjects (parseCSV shadowedMethodText))) None
       = Inl TypeError"
    by (simp only: pipeline_shadowedMethod shadowed_row_raises)
qed

subsection \<open>analyzeColumnValues\<close>

lemma scanColumn_values:
  "scanColumn data column (n, s, vs) = Inr (n', s', vs') \<Longrightarrow>
     vs' = vs @ columnValues data column \<and> n' = n + length (columnValues data column)"
proof (induction data arbitrary: n s vs)
  case Nil
  then show ?case by (simp add: columnValues_def)
next
  case (Cons row rows)
  show ?case
  proof (cases "ownProperty row column")
    case (Inl e)
    then show ?thesis using Cons.prems by simp
  next
    case (Inr cell)
    then have m: "map_of row column = cell"
      by (simp add: ownProperty_def split: if_splits)
    show ?thesis
    proof (cases cell)
      case None
      then have "cellValue row column = []" using m by (simp add: cellValue_def)
      then show ?thesis using Cons.prems Cons.IH [of n s vs] Inr None
        by (simp add: columnValues_def)
    next
      case (Some c)
      show ?thesis
      proof (cases "pvalue (parseNPSValue (StringValue c))")
        case None
        then have "cellValue row column = []" using m Some by (simp add: cellValue_def)
        then show ?thesis using Cons.prems Cons.IH [of n s vs] Inr Some None
          by (simp add: columnValues_def)
      next
        case v: (Some v)
        then have "valid (parseNPSValue (StringValue c))"
          using parseNPSValue_Some by blast
        moreover have "cellValue row column = [v]" using m Some v by (simp add: cellValue_def)
        ultimately show ?thesis
          using Cons.prems Cons.IH [of "n + 1" "s + v" "vs @ [v]"] Inr Some v
          by (simp add: columnValues_def)
      qed
    qed
  qed
qed

lemma columnValues_valid: "v \<in> set (columnValues data column) \<Longrightarrow> 0 \<le> v \<and> v \<le> 10"
  by (auto simp add: columnValues_def cellValue_def split: option.splits)
    (metis parseNPSValue_Some)+

lemma rangeOf_iff:
  "rangeOf vs \<longleftrightarrow> (\<exists>v \<in> set vs. (0 \<le> v \<and> v \<le> 3) \<or> (4 \<le> v \<and> v \<le> 7) \<or> (8 \<le> v \<and> v \<le> 10))"
  by (auto simp add: rangeOf_def Let_def list_ex_iff)

lemma integer_grade:
  fixes v :: real
  assumes "v \<in> \<int>" and "0 \<le> v" and "v \<le> 10"
  shows "(0 \<le> v \<and> v \<le> 3) \<or> (4 \<le> v \<and> v \<le> 7) \<or> (8 \<le> v \<and> v \<le> 10)"
proof -
  obtain k :: int where k: "v = of_int k" using assms(1) by (auto elim: Ints_cases)
  then have "0 \<le> k" "k \<le> 10" using assms(2,3) by simp_all
  then have "(0 \<le> k \<and> k \<le> 3) \<or> (4 \<le> k \<and> k \<le> 7) \<or> (8 \<le> k \<and> k \<le> 10)" by arith
  then show ?thesis using k by simp
qed

text \<open>
  C10. \<open>hasExpectedRange\<close> holds exactly when a valid parsed value of the column lies in
  one of the ranges 0..3, 4..7 and 8..10. When all these values are integers it says the
  same as \<open>validCount > 0\<close>; values strictly between 3 and 4 or between 7 and 8 do not
  establish it.
\<close>

theorem analyzeColumnValues_hasExpectedRange:
  "analyzeColumnValues data column = Inr st \<Longrightarrow>
     validCount st = length (columnValues data column)
     \<and> (hasExpectedRange st \<longleftrightarrow>
          (\<exists>v \<in> set (columnValues data column).
             (0 \<le> v \<and> v \<le> 3) \<or> (4 \<le> v \<and> v \<le> 7) \<or> (8 \<le> v \<and> v \<le> 10)))
     \<and> ((\<forall>v \<in> set (columnValues data column). v \<in> \<int>) \<longrightarrow>
          (hasExpectedRange st \<longleftrightarrow> validCount st > 0))
     \<and> ((\<forall>v \<in> set (columnValues data column). (3 < v \<and> v < 4) \<or> (7 < v \<and> v < 8)) \<longrightarrow>
          \<not> hasExpectedRange st)"
proof -
  assume a: "analyzeColumnValues data column = Inr st"
  then obtain n s vs where sc: "scanColumn data column (0, 0, []) = Inr (n, s, vs)"
    and n: "validCount st = n" and h: "hasExpectedRange st = rangeOf vs"
    by (auto simp add: analyzeColumnValues_def split: sum.splits)
  have vs: "vs = columnValues data column" and len: "n = length (columnValues data column)"
    using scanColumn_values [OF sc] by simp_all
  have r: "hasExpectedRange st \<longleftrightarrow>
          (\<exists>v \<in> set (columnValues data column).
             (0 \<le> v \<and> v \<le> 3) \<or> (4 \<le> v \<and> v \<le> 7) \<or> (8 \<le> v \<and> v \<le> 10))"
    using h vs by (simp add: rangeOf_iff)
  have i: "hasExpectedRange st \<longleftrightarrow> validCount st > 0"
    if "\<forall>v \<in> set (columnValues data column). v \<in> \<int>"
  proof
    assume "hasExpectedRange st"
    then have "columnValues data column \<noteq> []" using r by auto
    then show "validCount st > 0" using n len by simp
  next
    assume "validCount st > 0"
    then obtain v where v: "v \<in> set (columnValues data column)"
      using n len by (cases "columnValues data column") auto
    then have "(0 \<le> v \<and> v \<le> 3) \<or> (4 \<le> v \<and> v \<le> 7) \<or> (8 \<le> v \<and> v \<le> 10)"
      using that columnValues_valid [OF v] integer_grade [of v] by blast
    then show "hasExpectedRange st" using r v by blast
  qed
  have g: "\<not> hasExpectedRange st"
    if "\<forall>v \<in> set (columnValues data column). (3 < v \<and> v < 4) \<or> (7 < v \<and> v < 8)"
    using that r by fastforce
  show ?thesis using n len r i g by blast
qed

lemma analyze_halfwayAnswer:
  "analyzeColumnValues halfwayAnswer (js ''score'')
     = Inr \<lparr>validCount = 1, validPercentage = 100, averageValue = 7 / 2,
            hasExpectedRange = False\<rparr>"
  by (simp add: analyzeColumnValues_def halfwayAnswer_def own_score parse_halfway rangeOf_def)

lemma analyze_fourAnswers:
  "analyzeColumnValues fourAnswers (js ''score'')
     = Inr \<lparr>validCount = 4, validPercentage = 100, averageValue = 7,
            hasExpectedRange = True\<rparr>"
  by (simp add: analyzeColumnValues_def fourAnswers_def own_score parse_9 parse_3 parse_7
      rangeOf_def)

lemma values_halfwayAnswer: "columnValues halfwayAnswer (js ''score'') = [7 / 2]"
  by (simp add: columnValues_def cellValue_def halfwayAnswer_def parse_halfway)

lemma values_fourAnswers: "columnValues fourAnswers (js ''score'') = [9, 9, 3, 7]"
  by (simp add: columnValues_def cellValue_def fourAnswers_def parse_9 parse_3 parse_7)

theorem analyzeColumnValues_hasExpectedRange_witness:
  "analyzeColumnValues halfwayAnswer (js ''score'')
     = Inr \<lparr>validCount = 1, validPercentage = 100, averageValue = 7 / 2,
            hasExpectedRange = False\<rparr>
   \<and> columnValues halfwayAnswer (js ''score'') = [7 / 2]
   \<and> analyzeColumnValues fourAnswers (js ''score'')
     = Inr \<lparr>validCount = 4, validPercentage = 100, averageValue = 7,
            hasExpectedRange = True\<rparr>
   \<and> columnValues fourAnswers (js ''score'') = [9, 9, 3, 7]"
  using analyzeColumnValues_hasExpectedRange [OF analyze_halfwayAnswer]
    analyzeColumnValues_hasExpectedRange [OF analyze_fourAnswers]
  by (simp add: analyze_halfwayAnswer analyze_fourAnswers values_halfwayAnswer
      values_fourAnswers)

end
